theory Spec2Isabelle
  imports Complex_Main
begin

section \<open>Python values shared by the three modules\<close>

text \<open>
  The dictionaries of the program hold strings, \<open>None\<close> and (for \<open>year\<close>) integers.
  A dictionary is a finite map from its string keys. Strings are byte strings; the
  only character operations the program performs (\<open>lower\<close>, \<open>strip\<close>, \<open>in\<close>,
  \<open>startswith\<close>) are modelled on ASCII.
\<close>

datatype pyval = PNone | PStr string | PInt int

type_synonym pydict = "string \<rightharpoonup> pyval"

datatype exn =
    KeyError string
  | IndexError
  | FileNotFoundError string
  | OSError string
  | ModelError string

fun exn_str :: "exn \<Rightarrow> string" where
  "exn_str (KeyError k) = [CHR 0x27] @ k @ [CHR 0x27]"
| "exn_str IndexError = ''list index out of range''"
| "exn_str (FileNotFoundError p) = ''No such file or directory: '' @ p"
| "exn_str (OSError m) = m"
| "exn_str (ModelError m) = m"

text \<open>Python truthiness, as used by \<open>if description:\<close> and \<open>if ....get('file_path'):\<close>.\<close>

fun truthy :: "pyval \<Rightarrow> bool" where
  "truthy PNone = False"
| "truthy (PStr s) = (s \<noteq> [])"
| "truthy (PInt i) = (i \<noteq> 0)"

text \<open>\<open>d.get(k)\<close>: a missing key reads as \<open>None\<close>; \<open>d.get(k, default)\<close> reads as the default.\<close>

definition dict_get :: "pydict \<Rightarrow> string \<Rightarrow> pyval" where
  "dict_get d k = (case d k of None \<Rightarrow> PNone | Some v \<Rightarrow> v)"

definition dict_get_default :: "pydict \<Rightarrow> string \<Rightarrow> pyval \<Rightarrow> pyval" where
  "dict_get_default d k dflt = (case d k of None \<Rightarrow> dflt | Some v \<Rightarrow> v)"

text \<open>\<open>str(n)\<close> for the integers that are formatted into strings.\<close>

definition digit_char :: "nat \<Rightarrow> char" where
  "digit_char d =
     (if d = 0 then CHR ''0'' else if d = 1 then CHR ''1'' else if d = 2 then CHR ''2''
      else if d = 3 then CHR ''3'' else if d = 4 then CHR ''4'' else if d = 5 then CHR ''5''
      else if d = 6 then CHR ''6'' else if d = 7 then CHR ''7'' else if d = 8 then CHR ''8''
      else CHR ''9'')"

fun str_nat :: "nat \<Rightarrow> string" where
  "str_nat n = (if n < 10 then [digit_char n] else str_nat (n div 10) @ [digit_char (n mod 10)])"

declare str_nat.simps [simp del]

definition str_int :: "int \<Rightarrow> string" where
  "str_int i = (if i < 0 then ''-'' @ str_nat (nat (- i)) else str_nat (nat i))"

text \<open>What an f-string prints for a value.\<close>

fun py_str :: "pyval \<Rightarrow> string" where
  "py_str PNone = ''None''"
| "py_str (PStr s) = s"
| "py_str (PInt i) = str_int i"

definition newline :: string where
  "newline = [CHR 0x0A]"

text \<open>\<open>sep.join(xs)\<close>.\<close>

fun join :: "string \<Rightarrow> string list \<Rightarrow> string" where
  "join sep [] = []"
| "join sep [x] = x"
| "join sep (x # y # ys) = x @ sep @ join sep (y # ys)"

text \<open>\<open>s.startswith(p)\<close> and \<open>w in s\<close> (substring test).\<close>

fun startswith :: "string \<Rightarrow> string \<Rightarrow> bool" where
  "startswith s [] = True"
| "startswith [] (p # ps) = False"
| "startswith (c # cs) (p # ps) = (c = p \<and> startswith cs ps)"

fun contains_str :: "string \<Rightarrow> string \<Rightarrow> bool" where
  "contains_str w [] = (w = [])"
| "contains_str w (c # cs) = (startswith (c # cs) w \<or> contains_str w cs)"

text \<open>\<open>s.lower()\<close> on ASCII letters; every other byte is left as it is.\<close>

definition lower_char :: "char \<Rightarrow> char" where
  "lower_char c =
     (case map_of (zip ''ABCDEFGHIJKLMNOPQRSTUVWXYZ'' ''abcdefghijklmnopqrstuvwxyz'') c of
        None \<Rightarrow> c
      | Some l \<Rightarrow> l)"

definition lower :: "string \<Rightarrow> string" where
  "lower s = map lower_char s"

text \<open>\<open>s.strip()\<close>: the ASCII white space of \<open>str.isspace\<close>.\<close>

definition is_space :: "char \<Rightarrow> bool" where
  "is_space c \<longleftrightarrow>
     c \<in> set [CHR 0x09, CHR 0x0A, CHR 0x0B, CHR 0x0C, CHR 0x0D,
                CHR 0x1C, CHR 0x1D, CHR 0x1E, CHR 0x1F, CHR 0x20]"

definition strip :: "string \<Rightarrow> string" where
  "strip s = rev (dropWhile is_space (rev (dropWhile is_space s)))"


section \<open>rag.py: the responder\<close>

text \<open>
  A retrieval result is the dictionary \<open>{'content', 'metadata', 'distance'}\<close> built by
  \<open>search_memories\<close>. The answer is the dictionary \<open>{'response', 'images', 'audio'}\<close>,
  each media item the dictionary \<open>{'path', 'filename'}\<close>.
\<close>

record retrieved =
  mem_content :: string
  mem_metadata :: pydict
  mem_distance :: real

record media =
  media_path :: pyval
  media_filename :: pyval

record answer =
  response :: string
  images :: "media list"
  audio :: "media list"

definition no_memories_response :: string where
  "no_memories_response =
     ''I don'' @ [CHR 0x27] @ ''t have any memories to reference yet. Please upload some files first!''"

definition image_intent_context :: string where
  "image_intent_context = ''The user is asking about images/photos in their memories.''"

definition audio_intent_context :: string where
  "audio_intent_context = ''The user is asking about audio recordings in their memories.''"

definition image_keywords :: "string list" where
  "image_keywords = [''photo'', ''image'', ''picture'', ''show'', ''display'']"

definition audio_keywords :: "string list" where
  "audio_keywords = [''audio'', ''sound'', ''recording'', ''play'', ''listen'', ''music'', ''voice'']"

text \<open>Lines 38-40: the three list comprehensions over \<open>retrieved_memories\<close>.\<close>

definition image_memories :: "retrieved list \<Rightarrow> retrieved list" where
  "image_memories rs = filter (\<lambda>mem. dict_get (mem_metadata mem) ''source_type'' = PStr ''image'') rs"

definition audio_memories :: "retrieved list \<Rightarrow> retrieved list" where
  "audio_memories rs = filter (\<lambda>mem. dict_get (mem_metadata mem) ''source_type'' = PStr ''audio'') rs"

definition other_memories :: "retrieved list \<Rightarrow> retrieved list" where
  "other_memories rs =
     filter (\<lambda>mem. dict_get (mem_metadata mem) ''source_type'' \<notin> set [PStr ''image'', PStr ''audio'']) rs"

text \<open>
  Lines 43-46: one line per non-media memory. The subscripts \<open>['filename']\<close> and
  \<open>['source_type']\<close> raise \<open>KeyError\<close> on a missing key.
\<close>

fun context_lines :: "retrieved list \<Rightarrow> exn + string list" where
  "context_lines [] = Inr []"
| "context_lines (mem # mems) =
     (case mem_metadata mem ''filename'' of
        None \<Rightarrow> Inl (KeyError ''filename'')
      | Some fn \<Rightarrow>
          (case mem_metadata mem ''source_type'' of
             None \<Rightarrow> Inl (KeyError ''source_type'')
           | Some st \<Rightarrow>
               (case context_lines mems of
                  Inl e \<Rightarrow> Inl e
                | Inr ls \<Rightarrow>
                    Inr ((''Memory from '' @ py_str fn @ '' ('' @ py_str st @ ''): '' @ mem_content mem) # ls))))"

text \<open>\<open>any(word in query.lower() for word in keywords)\<close>.\<close>

definition mentions :: "string list \<Rightarrow> string \<Rightarrow> bool" where
  "mentions keywords query = list_ex (\<lambda>word. contains_str word (lower query)) keywords"

text \<open>Lines 43-52: the context handed to the prompt.\<close>

definition build_context :: "string \<Rightarrow> retrieved list \<Rightarrow> exn + string" where
  "build_context query rs =
     (case context_lines (other_memories rs) of
        Inl e \<Rightarrow> Inl e
      | Inr ls \<Rightarrow>
          Inr (if image_memories rs \<noteq> [] \<and> mentions image_keywords query
                 then image_intent_context
               else if audio_memories rs \<noteq> [] \<and> mentions audio_keywords query
                 then audio_intent_context
               else join newline ls))"

definition make_prompt :: "string \<Rightarrow> string \<Rightarrow> string" where
  "make_prompt query context =
     ''Question: '' @ query @ newline @ ''Context: '' @ context @ newline @ ''Answer:''"

text \<open>Lines 66-80: the two media loops, the same code over a different list.\<close>

fun collect_media :: "retrieved list \<Rightarrow> exn + media list" where
  "collect_media [] = Inr []"
| "collect_media (mem # mems) =
     (if truthy (dict_get (mem_metadata mem) ''file_path'') then
        (case mem_metadata mem ''filename'' of
           None \<Rightarrow> Inl (KeyError ''filename'')
         | Some fn \<Rightarrow>
             (case collect_media mems of
                Inl e \<Rightarrow> Inl e
              | Inr ms \<Rightarrow> Inr (\<lparr>media_path = dict_get (mem_metadata mem) ''file_path'', media_filename = fn\<rparr> # ms)))
      else collect_media mems)"

text \<open>
  \<open>generate_response\<close>. The generative model is external: \<open>generator\<close> maps the prompt
  to the texts of the returned sequences, or raises. The second component of the
  result is the list of prompts the model was called with, so that a call that was
  not made is visible.
\<close>

definition generate_response ::
  "(string \<Rightarrow> exn + string list) \<Rightarrow> string \<Rightarrow> retrieved list \<Rightarrow> (exn + answer) \<times> string list" where
  "generate_response generator query retrieved_memories =
     (if retrieved_memories = [] then
        (Inr \<lparr>response = no_memories_response, images = [], audio = []\<rparr>, [])
      else
        (case build_context query retrieved_memories of
           Inl e \<Rightarrow> (Inl e, [])
         | Inr context \<Rightarrow>
             (let prompt = make_prompt query context in
              (case generator prompt of
                 Inl e \<Rightarrow> (Inl e, [prompt])
               | Inr [] \<Rightarrow> (Inl IndexError, [prompt])
               | Inr (text0 # _) \<Rightarrow>
                   (let generated_text =
                          (if startswith text0 ''Answer:'' then strip (drop 7 text0) else text0)
                    in (case collect_media (image_memories retrieved_memories) of
                          Inl e \<Rightarrow> (Inl e, [prompt])
                        | Inr imgs \<Rightarrow>
                            (case collect_media (audio_memories retrieved_memories) of
                               Inl e \<Rightarrow> (Inl e, [prompt])
                             | Inr auds \<Rightarrow>
                                 (Inr \<lparr>response = ''As your memory archivist, I recall: '' @ generated_text,
                                       images = imgs, audio = auds\<rparr>, [prompt]))))))))"


section \<open>embeddings.py: the memory store\<close>

text \<open>
  The vector index and the embedding model are external. The index is modelled as
  the list of its entries in insertion order; \<open>get(limit)\<close> returns the ids of at most
  \<open>limit\<close> entries and may raise, \<open>add\<close> appends. The embedding model is the total
  function \<open>encode\<close>. The calls made to both are recorded in \<open>effects\<close>.
\<close>

record 'v entry =
  entry_id :: string
  entry_embedding :: 'v
  entry_document :: pyval
  entry_metadata :: pydict

datatype effect = CollectionGet nat | Encode pyval | CollectionAdd "string list"

record 'v store =
  entries :: "'v entry list"
  effects :: "effect list"

record 'v collaborators =
  encode :: "pyval \<Rightarrow> 'v"
  get_raises :: "exn option"

definition collection_get ::
  "'v collaborators \<Rightarrow> nat \<Rightarrow> 'v store \<Rightarrow> (exn + string list) \<times> 'v store" where
  "collection_get ext limit st =
     ((case get_raises ext of
         Some e \<Rightarrow> Inl e
       | None \<Rightarrow> Inr (take limit (map entry_id (entries st)))),
      st\<lparr>effects := effects st @ [CollectionGet limit]\<rparr>)"

definition collection_add :: "'v entry list \<Rightarrow> 'v store \<Rightarrow> 'v store" where
  "collection_add rows st =
     st\<lparr>entries := entries st @ rows, effects := effects st @ [CollectionAdd (map entry_id rows)]\<rparr>"

definition generate_embedding :: "'v collaborators \<Rightarrow> pyval \<Rightarrow> 'v store \<Rightarrow> 'v \<times> 'v store" where
  "generate_embedding ext text st = (encode ext text, st\<lparr>effects := effects st @ [Encode text]\<rparr>)"

text \<open>Line 56: \<open>{k: v for k, v in metadata.items() if v is not None}\<close>.\<close>

definition drop_none :: "pydict \<Rightarrow> pydict" where
  "drop_none d = (\<lambda>k. case d k of None \<Rightarrow> None | Some v \<Rightarrow> if v \<noteq> PNone then Some v else None)"

text \<open>
  Lines 43-57: the loop \<open>for i, memory in enumerate(memories)\<close>. The four parallel
  lists \<open>ids\<close>, \<open>documents\<close>, \<open>metadatas\<close>, \<open>embeddings_list\<close> grow by one element in
  every iteration; they are kept as one list of rows. \<open>add_row\<close> is the loop body for
  the record at index \<open>i\<close>.
\<close>

definition add_row ::
  "'v collaborators \<Rightarrow> nat \<Rightarrow> nat \<Rightarrow> pydict \<Rightarrow> 'v store \<Rightarrow> exn + ('v entry \<times> 'v store)" where
  "add_row ext existing_count i memory st =
     (case memory ''content'' of
        None \<Rightarrow> Inl (KeyError ''content'')
      | Some text \<Rightarrow>
          (case generate_embedding ext text st of
             (embedding, st1) \<Rightarrow>
               (case memory ''filename'' of
                  None \<Rightarrow> Inl (KeyError ''filename'')
                | Some file_name \<Rightarrow>
                    (case memory ''source_type'' of
                       None \<Rightarrow> Inl (KeyError ''source_type'')
                     | Some source_type \<Rightarrow>
                         (case memory ''upload_time'' of
                            None \<Rightarrow> Inl (KeyError ''upload_time'')
                          | Some upload_time \<Rightarrow>
                              (let metadata =
                                     [''filename'' \<mapsto> file_name,
                                      ''source_type'' \<mapsto> source_type,
                                      ''upload_time'' \<mapsto> upload_time,
                                      ''year'' \<mapsto> dict_get_default memory ''year'' (PStr []),
                                      ''file_path'' \<mapsto> dict_get_default memory ''file_path'' (PStr [])]
                               in Inr (\<lparr>entry_id = ''memory_'' @ str_nat (existing_count + i),
                                        entry_embedding = embedding,
                                        entry_document = text,
                                        entry_metadata = drop_none metadata\<rparr>, st1)))))))"

fun add_loop ::
  "'v collaborators \<Rightarrow> nat \<Rightarrow> nat \<Rightarrow> pydict list \<Rightarrow> 'v store \<Rightarrow> exn + ('v entry list \<times> 'v store)" where
  "add_loop ext existing_count i [] st = Inr ([], st)"
| "add_loop ext existing_count i (memory # rest) st =
     (case add_row ext existing_count i memory st of
        Inl e \<Rightarrow> Inl e
      | Inr (row, st1) \<Rightarrow>
          (case add_loop ext existing_count (Suc i) rest st1 of
             Inl e \<Rightarrow> Inl e
           | Inr (rows, st2) \<Rightarrow> Inr (row # rows, st2)))"

text \<open>\<open>add_memories\<close>: an exception of the count lookup is swallowed by the bare \<open>except\<close>.\<close>

definition add_memories ::
  "'v collaborators \<Rightarrow> pydict list \<Rightarrow> 'v store \<Rightarrow> exn + 'v store" where
  "add_memories ext memories st =
     (if memories = [] then Inr st
      else
        (case collection_get ext 10000 st of
           (got, st1) \<Rightarrow>
             (let existing_count = (case got of Inr ids \<Rightarrow> length ids | Inl e \<Rightarrow> 0)
              in (case add_loop ext existing_count 0 memories st1 of
                    Inl e \<Rightarrow> Inl e
                  | Inr (rows, st2) \<Rightarrow> Inr (collection_add rows st2)))))"


section \<open>ingestion.py: normalisation and the ingestion loop\<close>

text \<open>
  The file system is a map from path to file content. The external collaborators
  are parameters: the uuid and clock sources (indexed by the number of calls made),
  the outcome of creating the \<open>uploads\<close> directory and of opening a file for writing,
  the two text decoders, the Word reader, the speech-to-text pipeline, the image
  loader and the captioning pipeline.
\<close>

type_synonym bytes = string

type_synonym upload = "string \<times> bytes \<times> string \<times> string"

record ingest_env =
  uuid4 :: "nat \<Rightarrow> string"
  now_isoformat :: "nat \<Rightarrow> string"
  mkdir_raises :: "exn option"
  open_raises :: "string \<Rightarrow> exn option"
  read_utf8 :: "bytes \<Rightarrow> string option"
  read_latin1 :: "bytes \<Rightarrow> string"
  docx_paragraphs :: "bytes \<Rightarrow> exn + string list"
  transcriber :: "bytes \<Rightarrow> exn + string"
  image_open :: "bytes \<Rightarrow> exn + bytes"
  captioner :: "bytes \<Rightarrow> exn + string"

record ingest_state =
  files :: "string \<rightharpoonup> bytes"
  uuid_calls :: nat
  clock_calls :: nat
  printed :: "string list"

definition process_text_file :: "ingest_env \<Rightarrow> (string \<rightharpoonup> bytes) \<Rightarrow> string \<Rightarrow> exn + string" where
  "process_text_file env fs file_path =
     (case fs file_path of
        None \<Rightarrow> Inl (FileNotFoundError file_path)
      | Some file_data \<Rightarrow>
          (case read_utf8 env file_data of
             Some text \<Rightarrow> Inr text
           | None \<Rightarrow> Inr (read_latin1 env file_data)))"

definition process_word_file :: "ingest_env \<Rightarrow> (string \<rightharpoonup> bytes) \<Rightarrow> string \<Rightarrow> exn + string" where
  "process_word_file env fs file_path =
     (case fs file_path of
        None \<Rightarrow> Inl (FileNotFoundError file_path)
      | Some file_data \<Rightarrow>
          (case docx_paragraphs env file_data of
             Inl e \<Rightarrow> Inl e
           | Inr full_text \<Rightarrow> Inr (join newline full_text)))"

definition process_audio_file :: "ingest_env \<Rightarrow> (string \<rightharpoonup> bytes) \<Rightarrow> string \<Rightarrow> exn + string" where
  "process_audio_file env fs file_path =
     (case (case fs file_path of
              None \<Rightarrow> Inl (FileNotFoundError file_path)
            | Some file_data \<Rightarrow> transcriber env file_data) of
        Inr transcription \<Rightarrow> Inr (''Audio transcription: '' @ transcription)
      | Inl e \<Rightarrow>
          Inr (''Audio transcription failed: '' @ exn_str e
               @ ''. This is a placeholder for audio content.''))"

definition process_image_file :: "ingest_env \<Rightarrow> (string \<rightharpoonup> bytes) \<Rightarrow> string \<Rightarrow> exn + string" where
  "process_image_file env fs file_path =
     (case fs file_path of
        None \<Rightarrow> Inl (FileNotFoundError file_path)
      | Some file_data \<Rightarrow>
          (case image_open env file_data of
             Inl e \<Rightarrow> Inl e
           | Inr img \<Rightarrow>
               (case captioner env img of
                  Inl e \<Rightarrow> Inl e
                | Inr caption \<Rightarrow>
                    Inr (''This image shows: '' @ caption
                         @ ''. This appears to be a personal memory captured in a photograph.''))))"

text \<open>
  What \<open>open(path, 'wb')\<close> followed by \<open>f.write(data)\<close> raises in the environment. Where
  \<open>uploads_dir.mkdir(exist_ok=True)\<close> raises there is no directory \<open>uploads\<close>, so no
  path under it can be opened.
\<close>

definition write_raises :: "ingest_env \<Rightarrow> string \<Rightarrow> exn option" where
  "write_raises env p =
     (case mkdir_raises env of
        None \<Rightarrow> open_raises env p
      | Some e \<Rightarrow>
          if startswith p ''uploads/'' then Some (FileNotFoundError p) else open_raises env p)"

text \<open>The two writes of the loop, and \<open>if p.exists(): p.unlink()\<close>.\<close>

definition write_file :: "ingest_env \<Rightarrow> string \<Rightarrow> bytes \<Rightarrow> ingest_state \<Rightarrow> exn + ingest_state" where
  "write_file env p file_data st =
     (case write_raises env p of
        Some e \<Rightarrow> Inl e
      | None \<Rightarrow> Inr (st\<lparr>files := (files st)(p \<mapsto> file_data)\<rparr>))"

definition unlink_if_exists :: "string \<Rightarrow> ingest_state \<Rightarrow> ingest_state" where
  "unlink_if_exists p st = (if files st p \<noteq> None then st\<lparr>files := (files st)(p := None)\<rparr> else st)"

text \<open>
  Lines 77-84: the media side-file. The result is \<open>unique_filename\<close> where
  \<open>file_path\<close> was set (it is \<open>uploads/unique_filename\<close>), and \<open>None\<close> where it was not.
\<close>

definition save_media ::
  "ingest_env \<Rightarrow> string \<Rightarrow> bytes \<Rightarrow> string \<Rightarrow> ingest_state \<Rightarrow> exn + (string option \<times> ingest_state)" where
  "save_media env file_name file_data source_type st =
     (if source_type \<in> set [''image'', ''audio''] then
        (let unique_filename = uuid4 env (uuid_calls st) @ ''_'' @ file_name;
             st1 = st\<lparr>uuid_calls := Suc (uuid_calls st)\<rparr>
         in (case write_file env (''uploads/'' @ unique_filename) file_data st1 of
               Inl e \<Rightarrow> Inl e
             | Inr st2 \<Rightarrow> Inr (Some unique_filename, st2)))
      else Inr (None, st))"

text \<open>
  Lines 92-101: the dispatch on \<open>source_type\<close> inside the \<open>try\<close>. Its three ways out are
  a content string, an exception, and the \<open>continue\<close> of an unsupported type.
\<close>

datatype outcome = Content string | Raised exn | Skipped

fun outcome_of :: "exn + string \<Rightarrow> outcome" where
  "outcome_of (Inl e) = Raised e"
| "outcome_of (Inr text) = Content text"

definition normalize :: "ingest_env \<Rightarrow> (string \<rightharpoonup> bytes) \<Rightarrow> string \<Rightarrow> string \<Rightarrow> outcome" where
  "normalize env fs source_type temp_path =
     (if source_type = ''text'' then outcome_of (process_text_file env fs temp_path)
      else if source_type = ''word'' then outcome_of (process_word_file env fs temp_path)
      else if source_type = ''audio'' then outcome_of (process_audio_file env fs temp_path)
      else if source_type = ''image'' then outcome_of (process_image_file env fs temp_path)
      else Skipped)"

text \<open>
  Lines 76-124: one iteration of the loop. Both writes happen before the \<open>try\<close>, so
  an exception of either leaves the function; the \<open>except\<close> branch prints and removes
  the side-file, the \<open>finally\<close> branch removes the scratch file on every way out.
\<close>

definition ingest_one ::
  "ingest_env \<Rightarrow> upload \<Rightarrow> ingest_state \<Rightarrow> exn + (pydict option \<times> ingest_state)" where
  "ingest_one env upload st =
     (case upload of
        (file_name, file_data, source_type, description) \<Rightarrow>
          (case save_media env file_name file_data source_type st of
             Inl e \<Rightarrow> Inl e
           | Inr (unique_filename, st1) \<Rightarrow>
               (let temp_path = ''temp_'' @ file_name
                in (case write_file env temp_path file_data st1 of
                      Inl e \<Rightarrow> Inl e
                    | Inr st2 \<Rightarrow>
                        (case normalize env (files st2) source_type temp_path of
                           Skipped \<Rightarrow> Inr (None, unlink_if_exists temp_path st2)
                         | Raised e \<Rightarrow>
                             (let st3 = st2\<lparr>printed := printed st2
                                          @ [''Error processing '' @ file_name @ '': '' @ exn_str e]\<rparr>;
                                  st4 = (case unique_filename of
                                           Some u \<Rightarrow> unlink_if_exists (''uploads/'' @ u) st3
                                         | None \<Rightarrow> st3)
                              in Inr (None, unlink_if_exists temp_path st4))
                         | Content text \<Rightarrow>
                             (let content = (if description \<noteq> []
                                             then ''Description: '' @ description @ newline @ newline @ text
                                             else text);
                                  memory =
                                    [''content'' \<mapsto> PStr content,
                                     ''filename'' \<mapsto> PStr file_name,
                                     ''source_type'' \<mapsto> PStr source_type,
                                     ''upload_time'' \<mapsto> PStr (now_isoformat env (clock_calls st2)),
                                     ''year'' \<mapsto> PNone,
                                     ''file_path'' \<mapsto> (case unique_filename of
                                                        Some u \<Rightarrow> PStr u
                                                      | None \<Rightarrow> PNone)];
                                  st3 = st2\<lparr>clock_calls := Suc (clock_calls st2)\<rparr>
                              in Inr (Some memory, unlink_if_exists temp_path st3)))))))"

fun ingest_loop ::
  "ingest_env \<Rightarrow> upload list \<Rightarrow> pydict list \<Rightarrow> ingest_state \<Rightarrow> exn + (pydict list \<times> ingest_state)" where
  "ingest_loop env [] memories st = Inr (memories, st)"
| "ingest_loop env (upload # rest) memories st =
     (case ingest_one env upload st of
        Inl e \<Rightarrow> Inl e
      | Inr (None, st') \<Rightarrow> ingest_loop env rest memories st'
      | Inr (Some memory, st') \<Rightarrow> ingest_loop env rest (memories @ [memory]) st')"

text \<open>
  \<open>ingest_files\<close>: lines 73-74 create the \<open>uploads\<close> directory before the loop; an
  exception of \<open>mkdir\<close> leaves the function.
\<close>

definition ingest_files ::
  "ingest_env \<Rightarrow> upload list \<Rightarrow> ingest_state \<Rightarrow> exn + (pydict list \<times> ingest_state)" where
  "ingest_files env uploaded_files st =
     (case mkdir_raises env of
        Some e \<Rightarrow> Inl e
      | None \<Rightarrow> ingest_loop env uploaded_files [] st)"



section \<open>Terms used in the statements\<close>

text \<open>
  Readings of the dictionaries that the statements below use: the line of the
  default context for one memory, the media item of one memory, its source type and
  whether its \<open>file_path\<close> is truthy; the entries of a store after a call, the
  records and the final state of an ingestion run, and the content of a record.
  \<open>extracted_text\<close> is what the four normalisers of ingestion.py extract from the bytes
  of an upload (\<open>None\<close> where they raise or the source type is not handled), and
  \<open>upload_contents\<close> the content of the record of one upload (lines 103-105), if any.
\<close>

definition memory_line :: "retrieved \<Rightarrow> string" where
  "memory_line mem =
     ''Memory from '' @ py_str (dict_get (mem_metadata mem) ''filename'')
       @ '' ('' @ py_str (dict_get (mem_metadata mem) ''source_type'') @ ''): '' @ mem_content mem"

definition media_item :: "retrieved \<Rightarrow> media" where
  "media_item mem =
     \<lparr>media_path = dict_get (mem_metadata mem) ''file_path'',
      media_filename = dict_get (mem_metadata mem) ''filename''\<rparr>"

definition has_file_path :: "retrieved \<Rightarrow> bool" where
  "has_file_path mem = truthy (dict_get (mem_metadata mem) ''file_path'')"

definition source_type_of :: "retrieved \<Rightarrow> pyval" where
  "source_type_of mem = dict_get (mem_metadata mem) ''source_type''"

definition stored :: "exn + 'v store \<Rightarrow> 'v entry list" where
  "stored r = (case r of Inl e \<Rightarrow> [] | Inr st \<Rightarrow> entries st)"

definition memories_of :: "exn + (pydict list \<times> ingest_state) \<Rightarrow> pydict list" where
  "memories_of r = (case r of Inl e \<Rightarrow> [] | Inr (memories, st) \<Rightarrow> memories)"

definition state_of :: "exn + (pydict list \<times> ingest_state) \<Rightarrow> ingest_state option" where
  "state_of r = (case r of Inl e \<Rightarrow> None | Inr (memories, st) \<Rightarrow> Some st)"

definition extracted_text :: "ingest_env \<Rightarrow> string \<Rightarrow> bytes \<Rightarrow> string option" where
  "extracted_text env source_type file_data =
     (if source_type = ''text'' then
        Some (case read_utf8 env file_data of Some decoded \<Rightarrow> decoded | None \<Rightarrow> read_latin1 env file_data)
      else if source_type = ''word'' then
        (case docx_paragraphs env file_data of
           Inl e \<Rightarrow> None
         | Inr paragraphs \<Rightarrow> Some (join newline paragraphs))
      else if source_type = ''audio'' then
        Some (case transcriber env file_data of
                Inr transcription \<Rightarrow> ''Audio transcription: '' @ transcription
              | Inl e \<Rightarrow> ''Audio transcription failed: '' @ exn_str e
                         @ ''. This is a placeholder for audio content.'')
      else if source_type = ''image'' then
        (case image_open env file_data of
           Inl e \<Rightarrow> None
         | Inr img \<Rightarrow>
             (case captioner env img of
                Inl e \<Rightarrow> None
              | Inr caption \<Rightarrow>
                  Some (''This image shows: '' @ caption
                        @ ''. This appears to be a personal memory captured in a photograph.'')))
      else None)"

definition upload_contents :: "ingest_env \<Rightarrow> upload \<Rightarrow> pyval option list" where
  "upload_contents env upload =
     (case upload of
        (file_name, file_data, source_type, description) \<Rightarrow>
          (case extracted_text env source_type file_data of
             None \<Rightarrow> []
           | Some doc \<Rightarrow>
               [Some (PStr (if description \<noteq> []
                            then ''Description: '' @ description @ newline @ newline @ doc
                            else doc))]))"

definition content_of :: "pydict \<Rightarrow> pyval option" where
  "content_of memory = memory ''content''"


section \<open>Concrete collaborators and inputs\<close>

text \<open>
  Stand-ins for the external models and the disk, a handful of retrieval results,
  records and uploads, and two stores. They are used to evaluate the program on
  concrete inputs.
\<close>

definition demo_generator :: "string \<Rightarrow> exn + string list" where
  "demo_generator prompt = Inr [''Answer: a day at the beach'']"

definition beach_photo :: retrieved where
  "beach_photo =
     \<lparr>mem_content = ''This image shows: a beach.'',
      mem_metadata = [''filename'' \<mapsto> PStr ''beach.jpg'', ''source_type'' \<mapsto> PStr ''image'',
                      ''upload_time'' \<mapsto> PStr ''2024-05-01T10:00:00'', ''year'' \<mapsto> PStr [],
                      ''file_path'' \<mapsto> PStr ''u1_beach.jpg''],
      mem_distance = 0\<rparr>"

definition lost_photo :: retrieved where
  "lost_photo =
     \<lparr>mem_content = ''This image shows: a dog.'',
      mem_metadata = [''filename'' \<mapsto> PStr ''dog.jpg'', ''source_type'' \<mapsto> PStr ''image'',
                      ''upload_time'' \<mapsto> PStr ''2024-05-02T10:00:00'', ''year'' \<mapsto> PStr [],
                      ''file_path'' \<mapsto> PStr []],
      mem_distance = 1\<rparr>"

definition diary_note :: retrieved where
  "diary_note =
     \<lparr>mem_content = ''We went to the beach.'',
      mem_metadata = [''filename'' \<mapsto> PStr ''diary.txt'', ''source_type'' \<mapsto> PStr ''text'',
                      ''upload_time'' \<mapsto> PStr ''2024-05-03T10:00:00'', ''year'' \<mapsto> PStr [],
                      ''file_path'' \<mapsto> PStr []],
      mem_distance = 2\<rparr>"

definition voice_memo :: retrieved where
  "voice_memo =
     \<lparr>mem_content = ''Audio transcription: hello'',
      mem_metadata = [''filename'' \<mapsto> PStr ''memo.wav'', ''source_type'' \<mapsto> PStr ''audio'',
                      ''upload_time'' \<mapsto> PStr ''2024-05-04T10:00:00'', ''year'' \<mapsto> PStr [],
                      ''file_path'' \<mapsto> PStr ''u2_memo.wav''],
      mem_distance = 3\<rparr>"

definition demo_ext :: "nat collaborators" where
  "demo_ext = \<lparr>encode = (\<lambda>text. length (py_str text)), get_raises = None\<rparr>"

definition empty_store :: "nat store" where
  "empty_store = \<lparr>entries = [], effects = []\<rparr>"

definition numbered_entry :: "nat \<Rightarrow> nat entry" where
  "numbered_entry n =
     \<lparr>entry_id = ''memory_'' @ str_nat n, entry_embedding = 0,
      entry_document = PStr ''earlier memory'',
      entry_metadata = [''filename'' \<mapsto> PStr ''old.txt'', ''source_type'' \<mapsto> PStr ''text'']\<rparr>"

definition full_store :: "nat store" where
  "full_store = \<lparr>entries = map numbered_entry [0..<10001], effects = []\<rparr>"

definition plain_note :: pydict where
  "plain_note =
     [''content'' \<mapsto> PStr ''hello'', ''filename'' \<mapsto> PStr ''a.txt'',
      ''source_type'' \<mapsto> PStr ''text'', ''upload_time'' \<mapsto> PStr ''2024-05-01T10:00:00'']"

definition ingested_note :: pydict where
  "ingested_note =
     [''content'' \<mapsto> PStr ''hello'', ''filename'' \<mapsto> PStr ''a.txt'',
      ''source_type'' \<mapsto> PStr ''text'', ''upload_time'' \<mapsto> PStr ''2024-05-01T10:00:00'',
      ''year'' \<mapsto> PNone, ''file_path'' \<mapsto> PNone]"

definition init_state :: ingest_state where
  "init_state = \<lparr>files = Map.empty, uuid_calls = 0, clock_calls = 0, printed = []\<rparr>"

definition demo_env :: ingest_env where
  "demo_env =
     \<lparr>uuid4 = (\<lambda>n. ''uuid'' @ str_nat n),
      now_isoformat = (\<lambda>n. ''2024-05-01T10:00:0'' @ str_nat n),
      mkdir_raises = None,
      open_raises = (\<lambda>p. None),
      read_utf8 = (\<lambda>b. Some b),
      read_latin1 = (\<lambda>b. b),
      docx_paragraphs = (\<lambda>b. if b = [] then Inl (ModelError ''Package not found'') else Inr [b]),
      transcriber = (\<lambda>b. Inl (ModelError ''model not available'')),
      image_open = (\<lambda>b. if b = [] then Inl (ModelError ''cannot identify image file'') else Inr b),
      captioner = (\<lambda>b. Inr ''a beach'')\<rparr>"

definition full_disk_env :: ingest_env where
  "full_disk_env =
     demo_env\<lparr>open_raises :=
       (\<lambda>p. if startswith p ''uploads/'' then Some (OSError ''No space left on device'') else None)\<rparr>"

definition no_subdir_env :: ingest_env where
  "no_subdir_env =
     demo_env\<lparr>open_raises :=
       (\<lambda>p. if startswith p ''temp_'' \<and> CHR ''/'' \<in> set p then Some (FileNotFoundError p) else None)\<rparr>"

definition blank_docx_env :: ingest_env where
  "blank_docx_env = demo_env\<lparr>docx_paragraphs := (\<lambda>b. Inr [])\<rparr>"

definition note_a :: upload where
  "note_a = (''a.txt'', ''hello'', ''text'', [])"

definition note_c :: upload where
  "note_c = (''c.txt'', ''bye'', ''text'', [])"

definition after_note_a :: ingest_state where
  "after_note_a = \<lparr>files = Map.empty, uuid_calls = 0, clock_calls = 1, printed = []\<rparr>"

definition memo_fs :: "string \<rightharpoonup> bytes" where
  "memo_fs = [''temp_memo.wav'' \<mapsto> ''RIFF'']"

definition bad_png_fs :: "string \<rightharpoonup> bytes" where
  "bad_png_fs = [''temp_bad.png'' \<mapsto> []]"


section \<open>Properties of the responder\<close>

text \<open>The two executable string tests mean prefix and substring.\<close>

lemma startswith_iff: "startswith s p \<longleftrightarrow> (\<exists>suf. s = p @ suf)"
  by (induction s p rule: startswith.induct) auto

lemma contains_str_iff: "contains_str w s \<longleftrightarrow> (\<exists>pre suf. s = pre @ w @ suf)"
proof (induction s)
  case Nil
  then show ?case by auto
next
  case (Cons c cs)
  show ?case
  proof
    assume "contains_str w (c # cs)"
    then consider "startswith (c # cs) w" | "contains_str w cs" by auto
    then show "\<exists>pre suf. c # cs = pre @ w @ suf"
    proof cases
      case 1
      then obtain suf where "c # cs = w @ suf" by (auto simp: startswith_iff)
      then have "c # cs = [] @ w @ suf" by simp
      then show ?thesis by blast
    next
      case 2
      with Cons obtain pre suf where "cs = pre @ w @ suf" by blast
      then have "c # cs = (c # pre) @ w @ suf" by simp
      then show ?thesis by blast
    qed
  next
    assume "\<exists>pre suf. c # cs = pre @ w @ suf"
    then obtain pre suf where eq: "c # cs = pre @ w @ suf" by blast
    show "contains_str w (c # cs)"
    proof (cases pre)
      case Nil
      with eq have "startswith (c # cs) w" by (auto simp: startswith_iff)
      then show ?thesis by simp
    next
      case (Cons p ps)
      with eq have "cs = ps @ w @ suf" by simp
      with Cons.IH have "contains_str w cs" by blast
      then show ?thesis by simp
    qed
  qed
qed

lemma mentions_iff: "mentions keywords query \<longleftrightarrow> (\<exists>word \<in> set keywords. contains_str word (lower query))"
  by (simp add: mentions_def list_ex_iff)

lemma image_memories_nonempty_iff:
  "image_memories rs \<noteq> [] \<longleftrightarrow> (\<exists>mem \<in> set rs. source_type_of mem = PStr ''image'')"
  by (auto simp: image_memories_def source_type_of_def filter_empty_conv)

lemma audio_memories_nonempty_iff:
  "audio_memories rs \<noteq> [] \<longleftrightarrow> (\<exists>mem \<in> set rs. source_type_of mem = PStr ''audio'')"
  by (auto simp: audio_memories_def source_type_of_def filter_empty_conv)

lemma context_lines_keys:
  "\<forall>mem \<in> set ms. mem_metadata mem ''filename'' \<noteq> None \<and> mem_metadata mem ''source_type'' \<noteq> None
   \<Longrightarrow> context_lines ms = Inr (map memory_line ms)"
  by (induction ms) (auto simp: memory_line_def dict_get_def)

lemma build_context_keys:
  assumes "\<forall>mem \<in> set (other_memories rs).
             mem_metadata mem ''filename'' \<noteq> None \<and> mem_metadata mem ''source_type'' \<noteq> None"
  shows "build_context query rs =
           Inr (if image_memories rs \<noteq> [] \<and> mentions image_keywords query then image_intent_context
                else if audio_memories rs \<noteq> [] \<and> mentions audio_keywords query then audio_intent_context
                else join newline (map memory_line (other_memories rs)))"
  using context_lines_keys [OF assms] by (simp add: build_context_def)

lemma generate_response_prompt:
  "rs \<noteq> [] \<Longrightarrow> build_context query rs = Inr c
   \<Longrightarrow> snd (generate_response generator query rs) = [make_prompt query c]"
  by (simp add: generate_response_def Let_def split: sum.splits list.splits)

lemma make_prompt_inject: "make_prompt query c = make_prompt query c' \<longleftrightarrow> c = c'"
  by (simp add: make_prompt_def)

lemma join_lines_not_audio_intent: "join newline (map memory_line ms) \<noteq> audio_intent_context"
proof (cases ms)
  case Nil
  then show ?thesis by (simp add: audio_intent_context_def)
next
  case (Cons m ms')
  then show ?thesis by (cases ms') (simp_all add: memory_line_def audio_intent_context_def)
qed

lemma collect_media_Inr:
  "collect_media ms = Inr items \<Longrightarrow> items = map media_item (filter has_file_path ms)"
  by (induction ms arbitrary: items)
     (auto simp: media_item_def has_file_path_def dict_get_def split: if_splits option.splits sum.splits)

lemma collect_media_keys:
  "\<forall>mem \<in> set ms. mem_metadata mem ''filename'' \<noteq> None
   \<Longrightarrow> collect_media ms = Inr (map media_item (filter has_file_path ms))"
  by (induction ms) (auto simp: media_item_def has_file_path_def dict_get_def)

lemma generate_response_Inr:
  assumes "fst (generate_response generator query rs) = Inr ans"
  shows "images ans = map media_item (filter has_file_path (image_memories rs))
       \<and> audio ans = map media_item (filter has_file_path (audio_memories rs))
       \<and> (rs \<noteq> [] \<longrightarrow> (\<exists>c. build_context query rs = Inr c))"
proof (cases "rs = []")
  case True
  with assms show ?thesis
    by (auto simp: generate_response_def image_memories_def audio_memories_def)
next
  case False
  with assms show ?thesis
    by (auto simp: generate_response_def Let_def dest!: collect_media_Inr
             split: sum.splits list.splits)
qed

lemmas demo_rag_defs =
  beach_photo_def lost_photo_def diary_note_def voice_memo_def demo_generator_def
  other_memories_def image_memories_def audio_memories_def dict_get_def
  mentions_def image_keywords_def audio_keywords_def lower_def lower_char_def
  source_type_of_def has_file_path_def media_item_def

text \<open>
  Claim C6. Provided the non-media results carry the \<open>filename\<close> and \<open>source_type\<close>
  keys that the default context subscripts: if some retrieved result has source type
  \<open>image\<close> and the lowercased query contains one of the image keywords, the model is
  called with exactly one prompt, whose context is the fixed image-intent sentence
  (no memory content); and the prompt carries the audio-intent sentence exactly when
  the image check did not match, some result is audio and the query contains an
  audio keyword.
\<close>

theorem intent_override_image_first:
  assumes "\<forall>mem \<in> set (other_memories rs).
             mem_metadata mem ''filename'' \<noteq> None \<and> mem_metadata mem ''source_type'' \<noteq> None"
  shows "((\<exists>mem \<in> set rs. source_type_of mem = PStr ''image'')
            \<and> (\<exists>word \<in> set image_keywords. contains_str word (lower query))
          \<longrightarrow> snd (generate_response generator query rs) = [make_prompt query image_intent_context])
       \<and> (snd (generate_response generator query rs) = [make_prompt query audio_intent_context]
          \<longleftrightarrow> \<not> ((\<exists>mem \<in> set rs. source_type_of mem = PStr ''image'')
                  \<and> (\<exists>word \<in> set image_keywords. contains_str word (lower query)))
              \<and> (\<exists>mem \<in> set rs. source_type_of mem = PStr ''audio'')
              \<and> (\<exists>word \<in> set audio_keywords. contains_str word (lower query)))"
proof (cases "rs = []")
  case True
  then show ?thesis by (simp add: generate_response_def)
next
  case False
  let ?img = "image_memories rs \<noteq> [] \<and> mentions image_keywords query"
  let ?aud = "audio_memories rs \<noteq> [] \<and> mentions audio_keywords query"
  let ?ctx = "if ?img then image_intent_context
              else if ?aud then audio_intent_context
              else join newline (map memory_line (other_memories rs))"
  have "snd (generate_response generator query rs) = [make_prompt query ?ctx]"
    using False build_context_keys [OF assms] by (rule generate_response_prompt)
  moreover have "image_intent_context \<noteq> audio_intent_context"
    by (simp add: image_intent_context_def audio_intent_context_def)
  ultimately show ?thesis
    using join_lines_not_audio_intent [of "other_memories rs"]
    by (simp add: make_prompt_inject image_memories_nonempty_iff audio_memories_nonempty_iff
                  mentions_iff del: set_simps)
qed

text \<open>
  A query with both kinds of keyword over results of both kinds takes the image
  branch; a query with audio keywords only takes the audio branch.
\<close>

theorem intent_override_image_first_witness:
  "snd (generate_response demo_generator ''Show me the photo and play the recording''
          [diary_note, voice_memo, beach_photo])
     = [make_prompt ''Show me the photo and play the recording'' image_intent_context]
   \<and> snd (generate_response demo_generator ''Please PLAY the recording''
          [diary_note, voice_memo, beach_photo])
     = [make_prompt ''Please PLAY the recording'' audio_intent_context]"
proof -
  let ?rs = "[diary_note, voice_memo, beach_photo]"
  have keys: "\<forall>mem \<in> set (other_memories ?rs).
                mem_metadata mem ''filename'' \<noteq> None \<and> mem_metadata mem ''source_type'' \<noteq> None"
    by (simp add: demo_rag_defs)
  have img: "(\<exists>mem \<in> set ?rs. source_type_of mem = PStr ''image'')" 
    by (simp add: demo_rag_defs)
  have aud: "(\<exists>mem \<in> set ?rs. source_type_of mem = PStr ''audio'')" 
    by (simp add: demo_rag_defs)
  have kw1: "\<exists>word \<in> set image_keywords. contains_str word (lower ''Show me the photo and play the recording'')"
    by (simp add: demo_rag_defs)
  have kw2: "\<not> (\<exists>word \<in> set image_keywords. contains_str word (lower ''Please PLAY the recording''))"
    by (simp add: demo_rag_defs)
  have kw3: "\<exists>word \<in> set audio_keywords. contains_str word (lower ''Please PLAY the recording'')"
    by (simp add: demo_rag_defs)
  show ?thesis
    using intent_override_image_first [OF keys, of "''Show me the photo and play the recording''" demo_generator]
          intent_override_image_first [OF keys, of "''Please PLAY the recording''" demo_generator]
          img aud kw1 kw2 kw3
    by blast
qed

text \<open>
  Claim C7. For every query, an empty result list gives the fixed no-memories
  response with empty \<open>images\<close> and \<open>audio\<close> lists, and the list of prompts sent to
  the generative model is empty: the model is not invoked.
\<close>

theorem empty_retrieval_fallback:
  "generate_response generator query [] =
     (Inr \<lparr>response = no_memories_response, images = [], audio = []\<rparr>, [])"
  by (simp add: generate_response_def)

text \<open>
  Claim C8. Whenever \<open>generate_response\<close> returns an answer, its \<open>images\<close> list is
  exactly the \<open>{path, filename}\<close> items of the image results with a truthy
  \<open>file_path\<close>, and its \<open>audio\<close> list those of the audio results, both in retrieval
  order. A media result without \<open>file_path\<close> is not in the lists but still counts for
  the routing: with a matching keyword the prompt is the intent sentence.
\<close>

theorem media_lists_exact:
  assumes "fst (generate_response generator query rs) = Inr ans"
  shows "images ans =
           map media_item (filter (\<lambda>mem. source_type_of mem = PStr ''image'' \<and> has_file_path mem) rs)
       \<and> audio ans =
           map media_item (filter (\<lambda>mem. source_type_of mem = PStr ''audio'' \<and> has_file_path mem) rs)
       \<and> ((\<exists>mem \<in> set rs. source_type_of mem = PStr ''image'' \<and> \<not> has_file_path mem)
            \<and> mentions image_keywords query
          \<longrightarrow> snd (generate_response generator query rs) = [make_prompt query image_intent_context])
       \<and> ((\<exists>mem \<in> set rs. source_type_of mem = PStr ''audio'' \<and> \<not> has_file_path mem)
            \<and> mentions audio_keywords query
            \<and> \<not> (image_memories rs \<noteq> [] \<and> mentions image_keywords query)
          \<longrightarrow> snd (generate_response generator query rs) = [make_prompt query audio_intent_context])"
proof -
  note r = generate_response_Inr [OF assms]
  have lists: "images ans =
           map media_item (filter (\<lambda>mem. source_type_of mem = PStr ''image'' \<and> has_file_path mem) rs)"
     "audio ans =
           map media_item (filter (\<lambda>mem. source_type_of mem = PStr ''audio'' \<and> has_file_path mem) rs)"
    using r by (simp_all add: image_memories_def audio_memories_def source_type_of_def conj_commute)
  have routing: "snd (generate_response generator query rs) = [make_prompt query c]"
    if "rs \<noteq> []" "build_context query rs = Inr c" for c
    using that by (rule generate_response_prompt)
  have img: "snd (generate_response generator query rs) = [make_prompt query image_intent_context]"
    if "\<exists>mem \<in> set rs. source_type_of mem = PStr ''image'' \<and> \<not> has_file_path mem"
       "mentions image_keywords query"
  proof -
    from that(1) have ne: "rs \<noteq> []" and im: "image_memories rs \<noteq> []"
      by (auto simp: image_memories_nonempty_iff)
    from r ne obtain c where c: "build_context query rs = Inr c" by blast
    with im that(2) have "c = image_intent_context"
      by (auto simp: build_context_def split: sum.splits)
    with routing [OF ne c] show ?thesis by simp
  qed
  have aud: "snd (generate_response generator query rs) = [make_prompt query audio_intent_context]"
    if "\<exists>mem \<in> set rs. source_type_of mem = PStr ''audio'' \<and> \<not> has_file_path mem"
       "mentions audio_keywords query"
       "\<not> (image_memories rs \<noteq> [] \<and> mentions image_keywords query)"
  proof -
    from that(1) have ne: "rs \<noteq> []" and am: "audio_memories rs \<noteq> []"
      by (auto simp: audio_memories_nonempty_iff)
    from r ne obtain c where c: "build_context query rs = Inr c" by blast
    with am that(2,3) have "c = audio_intent_context"
      by (auto simp: build_context_def split: sum.splits)
    with routing [OF ne c] show ?thesis by simp
  qed
  from lists img aud show ?thesis by blast
qed

lemma demo_answer:
  "fst (generate_response demo_generator ''show me the dog'' [beach_photo, diary_note, lost_photo, voice_memo])
     = Inr \<lparr>response = ''As your memory archivist, I recall: a day at the beach'',
            images = [\<lparr>media_path = PStr ''u1_beach.jpg'', media_filename = PStr ''beach.jpg''\<rparr>],
            audio = [\<lparr>media_path = PStr ''u2_memo.wav'', media_filename = PStr ''memo.wav''\<rparr>]\<rparr>"
  by (simp add: generate_response_def build_context_def demo_rag_defs strip_def is_space_def)

theorem media_lists_exact_witness:
  "images \<lparr>response = ''As your memory archivist, I recall: a day at the beach'',
            images = [\<lparr>media_path = PStr ''u1_beach.jpg'', media_filename = PStr ''beach.jpg''\<rparr>],
            audio = [\<lparr>media_path = PStr ''u2_memo.wav'', media_filename = PStr ''memo.wav''\<rparr>]\<rparr>
     = [media_item beach_photo]
   \<and> snd (generate_response demo_generator ''show me the dog''
            [beach_photo, diary_note, lost_photo, voice_memo])
     = [make_prompt ''show me the dog'' image_intent_context]"
proof -
  have lost: "\<exists>mem \<in> set [beach_photo, diary_note, lost_photo, voice_memo].
                source_type_of mem = PStr ''image'' \<and> \<not> has_file_path mem"
    by (simp add: demo_rag_defs)
  have kw: "mentions image_keywords ''show me the dog''"
    by (simp add: demo_rag_defs)
  have flt: "filter (\<lambda>mem. source_type_of mem = PStr ''image'' \<and> has_file_path mem)
               [beach_photo, diary_note, lost_photo, voice_memo] = [beach_photo]"
    by (simp add: demo_rag_defs)
  note m = media_lists_exact [OF demo_answer]
  from m have "images \<lparr>response = ''As your memory archivist, I recall: a day at the beach'',
            images = [\<lparr>media_path = PStr ''u1_beach.jpg'', media_filename = PStr ''beach.jpg''\<rparr>],
            audio = [\<lparr>media_path = PStr ''u2_memo.wav'', media_filename = PStr ''memo.wav''\<rparr>]\<rparr>
     = map media_item [beach_photo]"
    unfolding flt by (rule conjunct1)
  moreover from m lost kw
  have "snd (generate_response demo_generator ''show me the dog''
            [beach_photo, diary_note, lost_photo, voice_memo])
     = [make_prompt ''show me the dog'' image_intent_context]"
    by blast
  ultimately show ?thesis by simp
qed

text \<open>
  The answer exists whenever every result has a \<open>filename\<close>, every non-media result
  a \<open>source_type\<close>, and the model returns at least one sequence.
\<close>

lemma generate_response_returns:
  assumes "\<forall>mem \<in> set rs. mem_metadata mem ''filename'' \<noteq> None"
      and "\<forall>mem \<in> set (other_memories rs). mem_metadata mem ''source_type'' \<noteq> None"
      and "\<forall>prompt. \<exists>t ts. generator prompt = Inr (t # ts)"
      and "rs \<noteq> []"
  shows "\<exists>ans. generate_response generator query rs
                 = (Inr ans, [make_prompt query
                      (if image_memories rs \<noteq> [] \<and> mentions image_keywords query
                         then image_intent_context
                       else if audio_memories rs \<noteq> [] \<and> mentions audio_keywords query
                         then audio_intent_context
                       else join newline (map memory_line (other_memories rs)))])"
proof -
  let ?c = "if image_memories rs \<noteq> [] \<and> mentions image_keywords query
              then image_intent_context
            else if audio_memories rs \<noteq> [] \<and> mentions audio_keywords query
              then audio_intent_context
            else join newline (map memory_line (other_memories rs))"
  from assms(1,2) have "\<forall>mem \<in> set (other_memories rs).
       mem_metadata mem ''filename'' \<noteq> None \<and> mem_metadata mem ''source_type'' \<noteq> None"
    by (simp add: other_memories_def)
  then have c: "build_context query rs = Inr ?c" by (rule build_context_keys)
  from assms(1) have "\<forall>mem \<in> set (image_memories rs). mem_metadata mem ''filename'' \<noteq> None"
    by (simp add: image_memories_def)
  then have i: "collect_media (image_memories rs)
                  = Inr (map media_item (filter has_file_path (image_memories rs)))"
    by (rule collect_media_keys)
  from assms(1) have "\<forall>mem \<in> set (audio_memories rs). mem_metadata mem ''filename'' \<noteq> None"
    by (simp add: audio_memories_def)
  then have a: "collect_media (audio_memories rs)
                  = Inr (map media_item (filter has_file_path (audio_memories rs)))"
    by (rule collect_media_keys)
  from assms(3) obtain t ts where g: "generator (make_prompt query ?c) = Inr (t # ts)" by blast
  show ?thesis
    unfolding generate_response_def c by (simp add: assms(4) Let_def g i a)
qed


section \<open>Properties of the memory store\<close>

lemma drop_none_no_None: "drop_none d k \<noteq> Some PNone"
  by (simp add: drop_none_def split: option.splits)

lemma drop_none_absent: "d k = None \<or> d k = Some PNone \<Longrightarrow> drop_none d k = None"
  by (auto simp: drop_none_def)

lemma add_row_cases:
  assumes "add_row ext c i memory st = Inr (row, st1)"
  obtains doc file_name source_type upload_time where
    "memory ''content'' = Some doc" "memory ''filename'' = Some file_name"
    "memory ''source_type'' = Some source_type" "memory ''upload_time'' = Some upload_time"
    "row = \<lparr>entry_id = ''memory_'' @ str_nat (c + i),
            entry_embedding = encode ext doc,
            entry_document = doc,
            entry_metadata = drop_none
              [''filename'' \<mapsto> file_name,
               ''source_type'' \<mapsto> source_type,
               ''upload_time'' \<mapsto> upload_time,
               ''year'' \<mapsto> dict_get_default memory ''year'' (PStr []),
               ''file_path'' \<mapsto> dict_get_default memory ''file_path'' (PStr [])]\<rparr>"
    "st1 = st\<lparr>effects := effects st @ [Encode doc]\<rparr>"
  using assms
  by (simp add: add_row_def generate_embedding_def Let_def split: option.splits)

lemma add_row_Inr:
  assumes "add_row ext c i memory st = Inr (row, st1)"
  shows "entry_id row = ''memory_'' @ str_nat (c + i)"
    and "entry_metadata row k \<noteq> Some PNone"
    and "memory k = Some PNone \<Longrightarrow> entry_metadata row k = None"
    and "entries st1 = entries st"
proof -
  from assms obtain doc file_name source_type upload_time where
    keys: "memory ''filename'' = Some file_name" "memory ''source_type'' = Some source_type"
      "memory ''upload_time'' = Some upload_time"
    and row: "row = \<lparr>entry_id = ''memory_'' @ str_nat (c + i),
            entry_embedding = encode ext doc,
            entry_document = doc,
            entry_metadata = drop_none
              [''filename'' \<mapsto> file_name,
               ''source_type'' \<mapsto> source_type,
               ''upload_time'' \<mapsto> upload_time,
               ''year'' \<mapsto> dict_get_default memory ''year'' (PStr []),
               ''file_path'' \<mapsto> dict_get_default memory ''file_path'' (PStr [])]\<rparr>"
    and st1: "st1 = st\<lparr>effects := effects st @ [Encode doc]\<rparr>"
    by (rule add_row_cases)
  from row show "entry_id row = ''memory_'' @ str_nat (c + i)" by simp
  from row show "entry_metadata row k \<noteq> Some PNone" by (simp add: drop_none_no_None)
  from st1 show "entries st1 = entries st" by simp
  assume none: "memory k = Some PNone"
  let ?md = "[''filename'' \<mapsto> file_name,
               ''source_type'' \<mapsto> source_type,
               ''upload_time'' \<mapsto> upload_time,
               ''year'' \<mapsto> dict_get_default memory ''year'' (PStr []),
               ''file_path'' \<mapsto> dict_get_default memory ''file_path'' (PStr [])]"
  have "?md k = None \<or> ?md k = Some PNone"
  proof (cases "k = ''file_path''")
    case True
    with none show ?thesis by (simp add: dict_get_default_def)
  next
    case fp: False
    show ?thesis
    proof (cases "k = ''year''")
      case True
      with none show ?thesis by (simp add: dict_get_default_def)
    next
      case yr: False
      show ?thesis
      proof (cases "k = ''upload_time''")
        case True
        with none keys show ?thesis by simp
      next
        case ut: False
        show ?thesis
        proof (cases "k = ''source_type''")
          case True
          with none keys show ?thesis by simp
        next
          case st: False
          show ?thesis
          proof (cases "k = ''filename''")
            case True
            with none keys show ?thesis by simp
          next
            case False
            with fp yr ut st show ?thesis by simp
          qed
        qed
      qed
    qed
  qed
  then have "drop_none ?md k = None"
    by (rule drop_none_absent)
  with row show "entry_metadata row k = None" by simp
qed

lemma add_loop_Inr:
  "add_loop ext c i memories st = Inr (rows, st')
   \<Longrightarrow> map entry_id rows = map (\<lambda>j. ''memory_'' @ str_nat (c + j)) [i..<i + length memories]
     \<and> length rows = length memories
     \<and> (\<forall>row \<in> set rows. \<forall>k. entry_metadata row k \<noteq> Some PNone)
     \<and> (\<forall>n < length memories. \<forall>k. (memories ! n) k = Some PNone \<longrightarrow> entry_metadata (rows ! n) k = None)
     \<and> entries st' = entries st"
proof (induction memories arbitrary: i st rows st')
  case Nil
  then show ?case by simp
next
  case (Cons memory rest)
  from Cons.prems obtain row st1 rows1 where
    row: "add_row ext c i memory st = Inr (row, st1)" and
    rest: "add_loop ext c (Suc i) rest st1 = Inr (rows1, st')" and
    rows: "rows = row # rows1"
    by (auto split: sum.splits prod.splits)
  note ih = Cons.IH [OF rest]
  have ids: "map entry_id rows = map (\<lambda>j. ''memory_'' @ str_nat (c + j)) [i..<i + length (memory # rest)]"
  proof -
    have "[i..<i + length (memory # rest)] = i # [Suc i..<Suc i + length rest]"
      by (subst upt_conv_Cons) simp_all
    with ih add_row_Inr(1) [OF row] rows show ?thesis by simp
  qed
  have none: "\<forall>n < length (memory # rest). \<forall>k. ((memory # rest) ! n) k = Some PNone
                \<longrightarrow> entry_metadata (rows ! n) k = None"
  proof (intro allI impI)
    fix n k assume "n < length (memory # rest)" "((memory # rest) ! n) k = Some PNone"
    then show "entry_metadata (rows ! n) k = None"
      using ih add_row_Inr(3) [OF row] rows by (cases n) auto
  qed
  from ids none ih add_row_Inr(2,4) [OF row] rows show ?case by auto
qed

lemma add_memories_Inr:
  assumes "add_memories ext memories st = Inr st'" and "memories \<noteq> []"
  shows "\<exists>rows st2. add_loop ext (case get_raises ext of None \<Rightarrow> min (length (entries st)) 10000 | Some e \<Rightarrow> 0)
                      0 memories (st\<lparr>effects := effects st @ [CollectionGet 10000]\<rparr>) = Inr (rows, st2)
                   \<and> entries st' = entries st @ rows"
proof -
  let ?c = "case get_raises ext of None \<Rightarrow> min (length (entries st)) 10000 | Some e \<Rightarrow> 0"
  let ?st1 = "st\<lparr>effects := effects st @ [CollectionGet 10000]\<rparr>"
  from assms obtain rows st2 where
    loop: "add_loop ext ?c 0 memories ?st1 = Inr (rows, st2)" and st': "st' = collection_add rows st2"
    by (auto simp: add_memories_def collection_get_def Let_def split: sum.splits option.splits)
  from add_loop_Inr [OF loop] have "entries st2 = entries st" by simp
  with st' have "entries st' = entries st @ rows" by (simp add: collection_add_def)
  with loop show ?thesis by blast
qed

text \<open>Membership in a list of keys, as a case distinction.\<close>

lemma mem5E:
  assumes "k \<in> set [a, b, c, d, e]"
  obtains "k = a" | "k = b" | "k = c" | "k = d" | "k = e"
  using assms by auto

lemma mem2E:
  assumes "k \<in> set [a, b]"
  obtains "k = a" | "k = b"
  using assms by auto

lemma add_row_metadata:
  assumes "add_row ext c i memory st = Inr (row, st1)"
  shows "k \<in> set [''filename'', ''source_type'', ''upload_time'', ''year'', ''file_path'']
         \<Longrightarrow> memory k = Some v \<Longrightarrow> v \<noteq> PNone \<Longrightarrow> entry_metadata row k = Some v"
    and "k \<in> set [''year'', ''file_path''] \<Longrightarrow> memory k = None
         \<Longrightarrow> entry_metadata row k = Some (PStr [])"
    and "k \<notin> set [''filename'', ''source_type'', ''upload_time'', ''year'', ''file_path'']
         \<Longrightarrow> entry_metadata row k = None"
proof -
  from assms obtain doc file_name source_type upload_time where
    keys: "memory ''filename'' = Some file_name" "memory ''source_type'' = Some source_type"
      "memory ''upload_time'' = Some upload_time"
    and row: "entry_metadata row = drop_none
              [''filename'' \<mapsto> file_name,
               ''source_type'' \<mapsto> source_type,
               ''upload_time'' \<mapsto> upload_time,
               ''year'' \<mapsto> dict_get_default memory ''year'' (PStr []),
               ''file_path'' \<mapsto> dict_get_default memory ''file_path'' (PStr [])]"
    by (rule add_row_cases) simp
  {
    assume k: "k \<in> set [''filename'', ''source_type'', ''upload_time'', ''year'', ''file_path'']"
      and v: "memory k = Some v" "v \<noteq> PNone"
    from k show "entry_metadata row k = Some v"
    proof (rule mem5E)
      assume "k = ''filename''"
      with v keys row show ?thesis by (simp add: drop_none_def)
    next
      assume "k = ''source_type''"
      with v keys row show ?thesis by (simp add: drop_none_def)
    next
      assume "k = ''upload_time''"
      with v keys row show ?thesis by (simp add: drop_none_def)
    next
      assume "k = ''year''"
      with v row show ?thesis by (simp add: drop_none_def dict_get_default_def)
    next
      assume "k = ''file_path''"
      with v row show ?thesis by (simp add: drop_none_def dict_get_default_def)
    qed
  }
  {
    assume k: "k \<in> set [''year'', ''file_path'']" and n: "memory k = None"
    from k show "entry_metadata row k = Some (PStr [])"
    proof (rule mem2E)
      assume "k = ''year''"
      with n row show ?thesis by (simp add: drop_none_def dict_get_default_def)
    next
      assume "k = ''file_path''"
      with n row show ?thesis by (simp add: drop_none_def dict_get_default_def)
    qed
  }
  {
    assume "k \<notin> set [''filename'', ''source_type'', ''upload_time'', ''year'', ''file_path'']"
    then have "[''filename'' \<mapsto> file_name,
               ''source_type'' \<mapsto> source_type,
               ''upload_time'' \<mapsto> upload_time,
               ''year'' \<mapsto> dict_get_default memory ''year'' (PStr []),
               ''file_path'' \<mapsto> dict_get_default memory ''file_path'' (PStr [])] k = None"
      by simp
    then have "drop_none [''filename'' \<mapsto> file_name,
               ''source_type'' \<mapsto> source_type,
               ''upload_time'' \<mapsto> upload_time,
               ''year'' \<mapsto> dict_get_default memory ''year'' (PStr []),
               ''file_path'' \<mapsto> dict_get_default memory ''file_path'' (PStr [])] k = None"
      by (intro drop_none_absent disjI1)
    with row show "entry_metadata row k = None" by simp
  }
qed

lemma add_loop_nth:
  "add_loop ext c i memories st = Inr (rows, st') \<Longrightarrow> n < length memories
   \<Longrightarrow> \<exists>s s'. add_row ext c (i + n) (memories ! n) s = Inr (rows ! n, s')"
proof (induction memories arbitrary: i st rows n)
  case Nil
  then show ?case by simp
next
  case (Cons memory rest)
  from Cons.prems(1) obtain row st1 rows1 where
    row: "add_row ext c i memory st = Inr (row, st1)" and
    rest: "add_loop ext c (Suc i) rest st1 = Inr (rows1, st')" and
    rows: "rows = row # rows1"
    by (auto split: sum.splits prod.splits)
  show ?case
  proof (cases n)
    case 0
    with row rows show ?thesis by auto
  next
    case (Suc m)
    with Cons.prems(2) have "m < length rest" by simp
    from Cons.IH [OF rest this] Suc rows show ?thesis by simp
  qed
qed

text \<open>
  Claim C2, as the code has it. Whenever \<open>add_memories\<close> returns, the store has grown
  by one row per record, in order, and for the metadata of each new row: no field is
  \<open>None\<close>; a field that is \<open>None\<close> in the record is absent; each of the five fields
  with a value other than \<open>None\<close> in the record is stored with that value, the empty
  string included; \<open>year\<close> and \<open>file_path\<close>, where the record lacks them, are stored as
  the empty string; and no other field is stored.
\<close>

theorem stored_metadata_strips_only_None:
  assumes "add_memories ext memories st = Inr st'"
  shows "\<exists>rows. entries st' = entries st @ rows \<and> length rows = length memories
           \<and> (\<forall>row \<in> set rows. \<forall>k. entry_metadata row k \<noteq> Some PNone)
           \<and> (\<forall>n < length memories. \<forall>k. (memories ! n) k = Some PNone
                \<longrightarrow> entry_metadata (rows ! n) k = None)
           \<and> (\<forall>n < length memories.
                \<forall>k \<in> set [''filename'', ''source_type'', ''upload_time'', ''year'', ''file_path''].
                \<forall>v. (memories ! n) k = Some v \<and> v \<noteq> PNone
                     \<longrightarrow> entry_metadata (rows ! n) k = Some v)
           \<and> (\<forall>n < length memories. \<forall>k \<in> set [''year'', ''file_path''].
                (memories ! n) k = None \<longrightarrow> entry_metadata (rows ! n) k = Some (PStr []))
           \<and> (\<forall>n < length memories. \<forall>k.
                k \<notin> set [''filename'', ''source_type'', ''upload_time'', ''year'', ''file_path'']
                \<longrightarrow> entry_metadata (rows ! n) k = None)"
proof (cases "memories = []")
  case True
  with assms show ?thesis by (simp add: add_memories_def)
next
  case False
  from add_memories_Inr [OF assms False] obtain rows c st1 st2 where
    loop: "add_loop ext c 0 memories st1 = Inr (rows, st2)" and e: "entries st' = entries st @ rows"
    by blast
  note basic = add_loop_Inr [OF loop]
  have kept: "entry_metadata (rows ! n) k = Some v"
    if "n < length memories"
       "k \<in> set [''filename'', ''source_type'', ''upload_time'', ''year'', ''file_path'']"
       "(memories ! n) k = Some v" "v \<noteq> PNone" for n k v
  proof -
    from add_loop_nth [OF loop that(1)] obtain s s' where
      "add_row ext c (0 + n) (memories ! n) s = Inr (rows ! n, s')" by blast
    from add_row_metadata(1) [OF this that(2,3,4)] show ?thesis .
  qed
  have dflt: "entry_metadata (rows ! n) k = Some (PStr [])"
    if "n < length memories" "k \<in> set [''year'', ''file_path'']" "(memories ! n) k = None" for n k
  proof -
    from add_loop_nth [OF loop that(1)] obtain s s' where
      "add_row ext c (0 + n) (memories ! n) s = Inr (rows ! n, s')" by blast
    from add_row_metadata(2) [OF this that(2,3)] show ?thesis .
  qed
  have other: "entry_metadata (rows ! n) k = None"
    if "n < length memories"
       "k \<notin> set [''filename'', ''source_type'', ''upload_time'', ''year'', ''file_path'']" for n k
  proof -
    from add_loop_nth [OF loop that(1)] obtain s s' where
      "add_row ext c (0 + n) (memories ! n) s = Inr (rows ! n, s')" by blast
    from add_row_metadata(3) [OF this that(2)] show ?thesis .
  qed
  from basic have b: "length rows = length memories"
      "\<forall>row \<in> set rows. \<forall>k. entry_metadata row k \<noteq> Some PNone"
      "\<forall>n < length memories. \<forall>k. (memories ! n) k = Some PNone
                \<longrightarrow> entry_metadata (rows ! n) k = None"
    by blast+
  show ?thesis
  proof (intro exI [of _ rows] conjI)
    show "entries st' = entries st @ rows" by (rule e)
    show "length rows = length memories" by (rule b(1))
    show "\<forall>row \<in> set rows. \<forall>k. entry_metadata row k \<noteq> Some PNone" by (rule b(2))
    show "\<forall>n < length memories. \<forall>k. (memories ! n) k = Some PNone
                \<longrightarrow> entry_metadata (rows ! n) k = None" by (rule b(3))
    show "\<forall>n < length memories.
                \<forall>k \<in> set [''filename'', ''source_type'', ''upload_time'', ''year'', ''file_path''].
                \<forall>v. (memories ! n) k = Some v \<and> v \<noteq> PNone
                     \<longrightarrow> entry_metadata (rows ! n) k = Some v"
      using kept by (intro allI impI ballI) (elim conjE, assumption)
    show "\<forall>n < length memories. \<forall>k \<in> set [''year'', ''file_path''].
                (memories ! n) k = None \<longrightarrow> entry_metadata (rows ! n) k = Some (PStr [])"
      using dflt by (intro allI impI ballI)
    show "\<forall>n < length memories. \<forall>k.
                k \<notin> set [''filename'', ''source_type'', ''upload_time'', ''year'', ''file_path'']
                \<longrightarrow> entry_metadata (rows ! n) k = None"
      using other by (intro allI impI)
  qed
qed

theorem stored_metadata_strips_only_None_witness:
  "entry_metadata (hd (stored (add_memories demo_ext [ingested_note] empty_store))) ''year'' = None
   \<and> entry_metadata (hd (stored (add_memories demo_ext [ingested_note] empty_store))) ''filename''
       = Some (PStr ''a.txt'')
   \<and> entry_metadata (hd (stored (add_memories demo_ext [ingested_note] empty_store))) ''content''
       = None
   \<and> length (stored (add_memories demo_ext [ingested_note] empty_store)) = 1"
proof -
  have "\<exists>st'. add_memories demo_ext [ingested_note] empty_store = Inr st'"
    by (simp add: add_memories_def collection_get_def add_row_def generate_embedding_def
                  ingested_note_def)
  then obtain st' where run: "add_memories demo_ext [ingested_note] empty_store = Inr st'" ..
  from stored_metadata_strips_only_None [OF run] obtain rows where
    rows: "entries st' = entries empty_store @ rows" "length rows = length [ingested_note]"
      "\<forall>n < length [ingested_note]. \<forall>k. ([ingested_note] ! n) k = Some PNone
          \<longrightarrow> entry_metadata (rows ! n) k = None"
      "\<forall>n < length [ingested_note].
          \<forall>k \<in> set [''filename'', ''source_type'', ''upload_time'', ''year'', ''file_path''].
          \<forall>v. ([ingested_note] ! n) k = Some v \<and> v \<noteq> PNone
               \<longrightarrow> entry_metadata (rows ! n) k = Some v"
      "\<forall>n < length [ingested_note]. \<forall>k.
          k \<notin> set [''filename'', ''source_type'', ''upload_time'', ''year'', ''file_path'']
          \<longrightarrow> entry_metadata (rows ! n) k = None"
    by (elim exE conjE)
  from rows(2) obtain row where row: "rows = [row]"
    by (cases rows) auto
  have "ingested_note ''year'' = Some PNone" by (simp add: ingested_note_def)
  with rows(3) row have y: "entry_metadata row ''year'' = None" by auto
  have "ingested_note ''filename'' = Some (PStr ''a.txt'')" by (simp add: ingested_note_def)
  with rows(4) [rule_format, of 0 "''filename''" "PStr ''a.txt''"] row
  have f: "entry_metadata row ''filename'' = Some (PStr ''a.txt'')" by simp
  from rows(5) [rule_format, of 0 "''content''"] row
  have c: "entry_metadata row ''content'' = None" by simp
  have "entries empty_store = []" by (simp add: empty_store_def)
  with y f c show ?thesis
    using rows(1) row by (simp add: run stored_def)
qed

text \<open>
  A record without \<open>year\<close> and \<open>file_path\<close> is stored with both fields present and
  equal to the empty string, the default of \<open>memory.get\<close>.
\<close>

theorem empty_value_stored_counterexample:
  "entry_metadata (hd (stored (add_memories demo_ext [plain_note] empty_store))) ''year'' = Some (PStr [])
   \<and> entry_metadata (hd (stored (add_memories demo_ext [plain_note] empty_store))) ''file_path'' = Some (PStr [])"
  by (simp add: add_memories_def collection_get_def collection_add_def add_row_def
                generate_embedding_def plain_note_def stored_def empty_store_def demo_ext_def
                dict_get_default_def drop_none_def)

text \<open>
  Claim C9. On the empty list \<open>add_memories\<close> returns the store as it was: the same
  entries and the same record of effects, so no \<open>get\<close>, no embedding and no \<open>add\<close>.
\<close>

theorem add_memories_empty_noop: "add_memories ext [] st = Inr st"
  by (simp add: add_memories_def)

text \<open>Decimal printing is injective, so distinct numbers give distinct ids.\<close>

lemma digit_char_inj: "a < 10 \<Longrightarrow> b < 10 \<Longrightarrow> digit_char a = digit_char b \<Longrightarrow> a = b"
  by (simp add: digit_char_def split: if_splits) arith

lemma str_nat_nonempty: "str_nat n \<noteq> []"
  by (induction n rule: str_nat.induct) (subst str_nat.simps, simp)

lemma str_nat_inj: "str_nat n = str_nat m \<Longrightarrow> n = m"
proof (induction n arbitrary: m rule: str_nat.induct)
  case (1 n)
  show ?case
  proof (cases "n < 10")
    case True
    show ?thesis
    proof (cases "m < 10")
      case m: True
      from "1.prems" True m have "digit_char n = digit_char m"
        by (subst (asm) str_nat.simps, subst (asm) (2) str_nat.simps) simp
      with True m show ?thesis by (rule digit_char_inj)
    next
      case m: False
      from "1.prems" True m have "[digit_char n] = str_nat (m div 10) @ [digit_char (m mod 10)]"
        by (subst (asm) str_nat.simps, subst (asm) (2) str_nat.simps) simp
      with str_nat_nonempty [of "m div 10"] show ?thesis by simp
    qed
  next
    case False
    show ?thesis
    proof (cases "m < 10")
      case m: True
      from "1.prems" False m have "str_nat (n div 10) @ [digit_char (n mod 10)] = [digit_char m]"
        by (subst (asm) str_nat.simps, subst (asm) (2) str_nat.simps) simp
      with str_nat_nonempty [of "n div 10"] show ?thesis by simp
    next
      case m: False
      from "1.prems" False m
      have "str_nat (n div 10) @ [digit_char (n mod 10)] = str_nat (m div 10) @ [digit_char (m mod 10)]"
        by (subst (asm) str_nat.simps, subst (asm) (2) str_nat.simps) simp
      then have a: "str_nat (n div 10) = str_nat (m div 10)"
        and b: "digit_char (n mod 10) = digit_char (m mod 10)" by simp_all
      from "1.IH" [OF False a] have "n div 10 = m div 10" .
      moreover from b have "n mod 10 = m mod 10" by (intro digit_char_inj) simp_all
      ultimately show ?thesis by (metis div_mult_mod_eq)
    qed
  qed
qed

text \<open>
  Where the count lookup succeeds and the store holds at most 10000 entries, the ids
  of a batch are \<open>memory_c, ..., memory_(c+N-1)\<close> for the entry count \<open>c\<close>, and
  pairwise distinct. Where the lookup raises, the count is taken as zero.
\<close>

lemma ids_continue_from_count:
  assumes "add_memories ext memories st = Inr st'" and "memories \<noteq> []"
    and "get_raises ext = None" and "length (entries st) \<le> 10000"
  shows "map entry_id (drop (length (entries st)) (entries st'))
           = map (\<lambda>j. ''memory_'' @ str_nat (length (entries st) + j)) [0..<length memories]"
    and "distinct (map entry_id (drop (length (entries st)) (entries st')))"
proof -
  from add_memories_Inr [OF assms(1,2)] assms(3,4) obtain rows st1 st2 where
    loop: "add_loop ext (length (entries st)) 0 memories st1 = Inr (rows, st2)"
    and e: "entries st' = entries st @ rows"
    by (auto simp: min_def)
  from add_loop_Inr [OF loop] e
  show ids: "map entry_id (drop (length (entries st)) (entries st'))
           = map (\<lambda>j. ''memory_'' @ str_nat (length (entries st) + j)) [0..<length memories]"
    by simp
  have "inj_on (\<lambda>j. ''memory_'' @ str_nat (length (entries st) + j)) (set [0..<length memories])"
    by (rule inj_onI) (auto dest: str_nat_inj)
  then show "distinct (map entry_id (drop (length (entries st)) (entries st')))"
    unfolding ids by (simp add: distinct_map)
qed

lemma ids_restart_when_count_lookup_raises:
  assumes "add_memories ext memories st = Inr st'" and "memories \<noteq> []"
    and "get_raises ext = Some e"
  shows "map entry_id (drop (length (entries st)) (entries st'))
           = map (\<lambda>j. ''memory_'' @ str_nat j) [0..<length memories]"
proof -
  from add_memories_Inr [OF assms(1,2)] assms(3) obtain rows st1 st2 where
    loop: "add_loop ext 0 0 memories st1 = Inr (rows, st2)"
    and e: "entries st' = entries st @ rows"
    by auto
  from add_loop_Inr [OF loop] e show ?thesis by simp
qed

text \<open>A store that holds one entry more than the count lookup asks for.\<close>

lemma length_full_store: "length (entries full_store) = 10001"
  by (simp add: full_store_def)

lemma last_full_store: "entry_id (entries full_store ! 10000) = ''memory_10000''"
  by (simp add: full_store_def numbered_entry_def digit_char_def str_nat.simps)

lemma ids_after_full_store: "map entry_id (drop 10001 (stored (add_memories demo_ext [plain_note] full_store))) = [''memory_10000'']"
proof -
  have got: "collection_get demo_ext 10000 full_store =
      (Inr (take 10000 (map entry_id (entries full_store))),
       full_store\<lparr>effects := effects full_store @ [CollectionGet 10000]\<rparr>)"
    by (simp add: collection_get_def demo_ext_def)
  have len: "length (take 10000 (map entry_id (entries full_store))) = 10000"
    by (simp add: length_full_store)
  have row: "add_row demo_ext 10000 0 plain_note st =
     Inr (\<lparr>entry_id = ''memory_10000'', entry_embedding = 5, entry_document = PStr ''hello'',
           entry_metadata = drop_none
              [''filename'' \<mapsto> PStr ''a.txt'',
               ''source_type'' \<mapsto> PStr ''text'',
               ''upload_time'' \<mapsto> PStr ''2024-05-01T10:00:00'',
               ''year'' \<mapsto> PStr [],
               ''file_path'' \<mapsto> PStr []]\<rparr>, st\<lparr>effects := effects st @ [Encode (PStr ''hello'')]\<rparr>)" for st
    by (simp add: add_row_def generate_embedding_def plain_note_def demo_ext_def dict_get_default_def
            digit_char_def str_nat.simps)
  show ?thesis
    by (simp add: add_memories_def got len row collection_add_def stored_def length_full_store)
qed

text \<open>
  Claim C3 at a store of 10001 entries \<open>memory_0 ... memory_10000\<close>: the count
  lookup \<open>get(limit=10000)\<close> sees 10000 of them, and the next record is given the id
  \<open>memory_10000\<close>, which the store already holds, not \<open>memory_10001\<close>.
\<close>

theorem ids_restart_at_limit:
  "length (entries full_store) = 10001
   \<and> entry_id (entries full_store ! 10000) = ''memory_10000''
   \<and> map entry_id (drop 10001 (stored (add_memories demo_ext [plain_note] full_store)))
       = [''memory_10000'']"
  using length_full_store last_full_store ids_after_full_store by simp


section \<open>Properties of ingestion\<close>

text \<open>
  A side-file can be written only where the \<open>uploads\<close> directory was created; a run
  that returns has created it; and where \<open>mkdir\<close> raises, \<open>ingest_files\<close> raises.
\<close>

lemma write_raises_uploads_None:
  "write_raises env (''uploads/'' @ name) = None \<Longrightarrow> mkdir_raises env = None"
  by (cases "mkdir_raises env") (simp_all add: write_raises_def)

lemma ingest_files_Inr:
  "ingest_files env uploads st = Inr r \<longleftrightarrow>
     mkdir_raises env = None \<and> ingest_loop env uploads [] st = Inr r"
  by (cases "mkdir_raises env") (simp_all add: ingest_files_def)

lemma ingest_files_mkdir_raises:
  "mkdir_raises env = Some e \<Longrightarrow> ingest_files env uploads st = Inl e"
  by (simp add: ingest_files_def)

text \<open>Removing a file if it exists leaves no file at the path, in both cases.\<close>

lemma unlink_if_exists_eq: "unlink_if_exists p st = st\<lparr>files := (files st)(p := None)\<rparr>"
proof (cases "files st p = None")
  case True
  then have "(files st)(p := None) = files st" by (rule fun_upd_idem)
  with True show ?thesis by (simp add: unlink_if_exists_def)
next
  case False
  then show ?thesis by (simp add: unlink_if_exists_def)
qed

lemma ingest_loop_append:
  "ingest_loop env (xs @ ys) memories st =
     (case ingest_loop env xs memories st of
        Inl e \<Rightarrow> Inl e
      | Inr (memories', st') \<Rightarrow> ingest_loop env ys memories' st')"
  by (induction xs arbitrary: memories st) (auto split: sum.splits option.splits)

lemma process_audio_file_Inr:
  "\<exists>s. process_audio_file env fs p = Inr s \<and> s \<noteq> []"
  by (simp add: process_audio_file_def split: sum.splits option.splits)

lemma outcome_of_Content: "outcome_of r = Content s \<longleftrightarrow> r = Inr s"
  by (cases r) auto

lemma outcome_of_not_Skipped: "outcome_of r \<noteq> Skipped"
  by (cases r) auto

lemma normalize_unsupported:
  "source_type \<notin> set [''text'', ''word'', ''audio'', ''image'']
   \<Longrightarrow> normalize env fs source_type p = Skipped"
  by (simp add: normalize_def)

text \<open>One iteration, once both writes have succeeded, and the ways it can raise.\<close>

lemma ingest_one_steps:
  assumes "save_media env file_name file_data source_type st = Inr (unique_filename, st1)"
      and "write_file env (''temp_'' @ file_name) file_data st1 = Inr st2"
  shows "ingest_one env (file_name, file_data, source_type, description) st =
     (case normalize env (files st2) source_type (''temp_'' @ file_name) of
        Skipped \<Rightarrow> Inr (None, st2\<lparr>files := (files st2)(''temp_'' @ file_name := None)\<rparr>)
      | Raised e \<Rightarrow>
          Inr (None,
               st2\<lparr>printed := printed st2 @ [''Error processing '' @ file_name @ '': '' @ exn_str e],
                   files := (case unique_filename of
                               Some u \<Rightarrow> (files st2)(''uploads/'' @ u := None, ''temp_'' @ file_name := None)
                             | None \<Rightarrow> (files st2)(''temp_'' @ file_name := None))\<rparr>)
      | Content doc \<Rightarrow>
          Inr (Some [''content'' \<mapsto> PStr (if description \<noteq> []
                                           then ''Description: '' @ description @ newline @ newline @ doc
                                           else doc),
                     ''filename'' \<mapsto> PStr file_name,
                     ''source_type'' \<mapsto> PStr source_type,
                     ''upload_time'' \<mapsto> PStr (now_isoformat env (clock_calls st2)),
                     ''year'' \<mapsto> PNone,
                     ''file_path'' \<mapsto> (case unique_filename of Some u \<Rightarrow> PStr u | None \<Rightarrow> PNone)],
               st2\<lparr>clock_calls := Suc (clock_calls st2),
                   files := (files st2)(''temp_'' @ file_name := None)\<rparr>))"
  using assms
  by (simp add: ingest_one_def Let_def unlink_if_exists_eq split: outcome.splits option.splits)

lemma ingest_one_Inl:
  "ingest_one env (file_name, file_data, source_type, description) st = Inl e \<longleftrightarrow>
     save_media env file_name file_data source_type st = Inl e
     \<or> (\<exists>u st1. save_media env file_name file_data source_type st = Inr (u, st1)
           \<and> write_file env (''temp_'' @ file_name) file_data st1 = Inl e)"
  by (auto simp: ingest_one_def Let_def split: sum.splits outcome.splits option.splits)

lemmas demo_ingest_defs =
  ingest_files_def ingest_one_def save_media_def write_file_def write_raises_def normalize_def
  process_text_file_def process_word_file_def process_audio_file_def process_image_file_def
  unlink_if_exists_def demo_env_def full_disk_env_def no_subdir_env_def blank_docx_env_def init_state_def Let_def newline_def
  str_nat.simps digit_char_def memories_of_def state_of_def content_of_def

lemma ingest_one_Inr_writes:
  assumes "ingest_one env (file_name, file_data, source_type, description) st = Inr r"
  obtains u st1 st2 where
    "save_media env file_name file_data source_type st = Inr (u, st1)"
    "write_file env (''temp_'' @ file_name) file_data st1 = Inr st2"
  using assms by (auto simp: ingest_one_def Let_def split: sum.splits)

text \<open>The normalisers read the scratch file, which holds the bytes of the upload.\<close>

lemma normalize_extracted:
  assumes "fs p = Some file_data"
  shows "normalize env fs source_type p = Content doc
         \<longleftrightarrow> extracted_text env source_type file_data = Some doc"
proof (cases "source_type = ''text''")
  case True
  with assms show ?thesis
    by (auto simp: normalize_def extracted_text_def process_text_file_def split: option.splits)
next
  case tx: False
  show ?thesis
  proof (cases "source_type = ''word''")
    case True
    with assms show ?thesis
      by (auto simp: normalize_def extracted_text_def process_word_file_def split: sum.splits)
  next
    case wd: False
    show ?thesis
    proof (cases "source_type = ''audio''")
      case True
      with assms show ?thesis
        by (auto simp: normalize_def extracted_text_def process_audio_file_def split: sum.splits)
    next
      case au: False
      show ?thesis
      proof (cases "source_type = ''image''")
        case True
        with assms show ?thesis
          by (auto simp: normalize_def extracted_text_def process_image_file_def split: sum.splits)
      next
        case False
        with tx wd au show ?thesis by (simp add: normalize_def extracted_text_def)
      qed
    qed
  qed
qed

lemma extracted_text_empty:
  assumes "extracted_text env source_type file_data = Some []"
  shows "source_type \<in> set [''text'', ''word'']"
proof (rule ccontr)
  assume "source_type \<notin> set [''text'', ''word'']"
  then have tw: "source_type \<noteq> ''text''" "source_type \<noteq> ''word''" by simp_all
  show False
  proof (cases "source_type = ''audio''")
    case True
    with assms show False
      by (simp add: extracted_text_def split: sum.splits)
  next
    case au: False
    show False
    proof (cases "source_type = ''image''")
      case True
      with assms show False
        by (simp add: extracted_text_def split: sum.splits)
    next
      case False
      with assms tw au show False by (simp add: extracted_text_def)
    qed
  qed
qed

lemma upload_contents_empty:
  "Some (PStr []) \<in> set (upload_contents env (file_name, file_data, source_type, description))
   \<longleftrightarrow> description = [] \<and> extracted_text env source_type file_data = Some []"
  by (cases "extracted_text env source_type file_data") (auto simp: upload_contents_def)

lemma ingest_one_contents:
  assumes one: "ingest_one env upload st = Inr (res, st')"
  shows "map content_of (case res of None \<Rightarrow> [] | Some memory \<Rightarrow> [memory]) = upload_contents env upload"
proof -
  obtain file_name file_data source_type description where
    u: "upload = (file_name, file_data, source_type, description)" by (cases upload)
  from one u obtain unique st1 st2 where
    w: "save_media env file_name file_data source_type st = Inr (unique, st1)"
       "write_file env (''temp_'' @ file_name) file_data st1 = Inr st2"
    by (auto elim: ingest_one_Inr_writes)
  from w(2) have f: "files st2 (''temp_'' @ file_name) = Some file_data"
    by (auto simp: write_file_def split: option.splits)
  note steps = ingest_one_steps [OF w, of description]
  note ex = normalize_extracted [where fs = "files st2" and p = "''temp_'' @ file_name"
              and env = env and source_type = source_type, OF f]
  show ?thesis
  proof (cases "normalize env (files st2) source_type (''temp_'' @ file_name)")
    case (Content doc)
    with ex have "extracted_text env source_type file_data = Some doc" by simp
    moreover from Content steps one u obtain memory where
      "res = Some memory"
      "memory ''content'' = Some (PStr (if description \<noteq> []
                                         then ''Description: '' @ description @ newline @ newline @ doc
                                         else doc))"
      by auto
    ultimately show ?thesis by (simp add: u upload_contents_def content_of_def)
  next
    case (Raised e)
    have "extracted_text env source_type file_data = None"
    proof (cases "extracted_text env source_type file_data")
      case None
      then show ?thesis .
    next
      case (Some doc)
      with ex [where doc = doc] Raised show ?thesis by simp
    qed
    moreover from Raised steps one u have "res = None" by simp
    ultimately show ?thesis by (simp add: u upload_contents_def)
  next
    case Skipped
    have "extracted_text env source_type file_data = None"
    proof (cases "extracted_text env source_type file_data")
      case None
      then show ?thesis .
    next
      case (Some doc)
      with ex [where doc = doc] Skipped show ?thesis by simp
    qed
    moreover from Skipped steps one u have "res = None" by simp
    ultimately show ?thesis by (simp add: u upload_contents_def)
  qed
qed

lemma ingest_loop_contents:
  "ingest_loop env uploads memories st = Inr (memories', st')
   \<Longrightarrow> map content_of memories'
         = map content_of memories @ concat (map (upload_contents env) uploads)"
proof (induction uploads arbitrary: memories st)
  case Nil
  then show ?case by simp
next
  case (Cons upload rest)
  from Cons.prems obtain res st1 where
    one: "ingest_one env upload st = Inr (res, st1)"
    by (auto split: sum.splits)
  note c = ingest_one_contents [OF one]
  show ?case
  proof (cases res)
    case None
    with one Cons.prems have "ingest_loop env rest memories st1 = Inr (memories', st')" by simp
    from Cons.IH [OF this] c None show ?thesis by simp
  next
    case (Some memory)
    with one Cons.prems have "ingest_loop env rest (memories @ [memory]) st1 = Inr (memories', st')"
      by simp
    from Cons.IH [OF this] c Some show ?thesis by simp
  qed
qed

text \<open>
  Claim C1, as the code has it. The code has no check for empty content. Whenever
  \<open>ingest_files\<close> returns, the contents of the returned records are, in upload order,
  the contents of the uploads whose normalisation succeeds: for each of them the
  extracted text, behind \<open>Description: <description>\<close> and an empty line when a
  description is given. So the content of a record is empty exactly when the upload
  has no description and its extracted text is empty, which only a text or Word
  upload can have; such an upload is not discarded.
\<close>

theorem record_content_is_extracted_text:
  assumes "ingest_files env uploads st = Inr (memories, st')"
  shows "map content_of memories = concat (map (upload_contents env) uploads)
       \<and> (\<forall>(file_name, file_data, source_type, description) \<in> set uploads.
            (Some (PStr []) \<in> set (upload_contents env (file_name, file_data, source_type, description))
             \<longleftrightarrow> description = [] \<and> extracted_text env source_type file_data = Some [])
            \<and> (extracted_text env source_type file_data = Some []
                 \<longrightarrow> source_type \<in> set [''text'', ''word'']))"
proof
  from assms have "ingest_loop env uploads [] st = Inr (memories, st')"
    by (simp add: ingest_files_Inr)
  from ingest_loop_contents [OF this]
  show "map content_of memories = concat (map (upload_contents env) uploads)" by simp
next
  show "\<forall>(file_name, file_data, source_type, description) \<in> set uploads.
            (Some (PStr []) \<in> set (upload_contents env (file_name, file_data, source_type, description))
             \<longleftrightarrow> description = [] \<and> extracted_text env source_type file_data = Some [])
            \<and> (extracted_text env source_type file_data = Some []
                 \<longrightarrow> source_type \<in> set [''text'', ''word''])"
  proof (rule ballI)
    fix upload assume "upload \<in> set uploads"
    obtain file_name file_data source_type description where
      u: "upload = (file_name, file_data, source_type, description)" by (cases upload)
    have "(Some (PStr []) \<in> set (upload_contents env (file_name, file_data, source_type, description))
             \<longleftrightarrow> description = [] \<and> extracted_text env source_type file_data = Some [])
            \<and> (extracted_text env source_type file_data = Some []
                 \<longrightarrow> source_type \<in> set [''text'', ''word''])"
      using upload_contents_empty [of env file_name file_data source_type description]
            extracted_text_empty [of env source_type file_data]
      by (intro conjI impI)
    then show "case upload of
            (file_name, file_data, source_type, description) \<Rightarrow>
              (Some (PStr []) \<in> set (upload_contents env (file_name, file_data, source_type, description))
               \<longleftrightarrow> description = [] \<and> extracted_text env source_type file_data = Some [])
              \<and> (extracted_text env source_type file_data = Some []
                   \<longrightarrow> source_type \<in> set [''text'', ''word''])"
      unfolding u prod.case .
  qed
qed

text \<open>
  A described text file, an empty text file without description and an audio file
  whose transcription raises give three records; the second has empty content.
\<close>

theorem record_content_is_extracted_text_witness:
  "map content_of (memories_of (ingest_files demo_env
       [(''a.txt'', ''hello'', ''text'', ''my note''), (''b.txt'', [], ''text'', []),
        (''memo.wav'', ''RIFF'', ''audio'', [])] init_state))
   = [Some (PStr (''Description: my note'' @ newline @ newline @ ''hello'')),
      Some (PStr []),
      Some (PStr ''Audio transcription failed: model not available. This is a placeholder for audio content.'')]"
proof -
  let ?ups = "[(''a.txt'', ''hello'', ''text'', ''my note''), (''b.txt'', [], ''text'', []),
               (''memo.wav'', ''RIFF'', ''audio'', [])]"
  have m: "mkdir_raises demo_env = None" by (simp add: demo_env_def)
  have step: "\<exists>res s'. ingest_one demo_env upload s = Inr (res, s')" for upload s
  proof -
    obtain file_name file_data source_type description where
      u: "upload = (file_name, file_data, source_type, description)" by (cases upload)
    show ?thesis
      unfolding u
      by (cases "ingest_one demo_env (file_name, file_data, source_type, description) s")
         (auto simp: ingest_one_Inl save_media_def write_file_def write_raises_def demo_env_def Let_def
               split: if_splits)
  qed
  have loop: "\<exists>ms s'. ingest_loop demo_env ups acc s = Inr (ms, s')" for ups acc s
  proof (induction ups arbitrary: acc s)
    case Nil
    show ?case by simp
  next
    case (Cons upload rest)
    from step [of upload s] obtain res s1 where "ingest_one demo_env upload s = Inr (res, s1)" by blast
    with Cons [of acc s1] Cons [of "acc @ [the res]" s1] show ?case
      by (cases res) auto
  qed
  from loop [of ?ups "[]" init_state] m obtain ms s' where
    run: "ingest_files demo_env ?ups init_state = Inr (ms, s')"
    by (auto simp: ingest_files_def)
  from record_content_is_extracted_text [OF run]
  have "map content_of ms = concat (map (upload_contents demo_env) ?ups)" by (rule conjunct1)
  also have "\<dots> = [Some (PStr (''Description: my note'' @ newline @ newline @ ''hello'')),
      Some (PStr []),
      Some (PStr ''Audio transcription failed: model not available. This is a placeholder for audio content.'')]"
    by (simp add: upload_contents_def extracted_text_def demo_env_def)
  finally show ?thesis by (simp add: run memories_of_def)
qed

text \<open>
  An empty text file without description yields a record whose content is empty, and
  so does a Word document without paragraphs.
\<close>

theorem empty_content_kept_counterexample:
  "map content_of (memories_of (ingest_files demo_env [(''empty.txt'', [], ''text'', [])] init_state))
     = [Some (PStr [])]
   \<and> map content_of (memories_of (ingest_files blank_docx_env [(''blank.docx'', ''PK'', ''word'', [])] init_state))
     = [Some (PStr [])]"
  by (simp add: demo_ingest_defs)

text \<open>
  When the write of the media side-file raises, \<open>ingest_files\<close> raises: the text
  upload that follows in the batch is not processed and no list is returned.
\<close>

theorem side_file_write_failure_aborts_counterexample:
  "ingest_files full_disk_env
     [(''beach.png'', ''PNG'', ''image'', []), (''a.txt'', ''hello'', ''text'', [])] init_state
   = Inl (OSError ''No space left on device'')"
  by (simp add: demo_ingest_defs)

lemma ingest_files_append_one:
  assumes "ingest_files env before st0 = Inr (memories, st)"
  shows "ingest_files env (before @ upload # rest) st0 =
     (case ingest_one env upload st of
        Inl e \<Rightarrow> Inl e
      | Inr (None, st') \<Rightarrow> ingest_loop env rest memories st'
      | Inr (Some memory, st') \<Rightarrow> ingest_loop env rest (memories @ [memory]) st')"
proof -
  from assms have m: "mkdir_raises env = None" and l: "ingest_loop env before [] st0 = Inr (memories, st)"
    by (simp_all add: ingest_files_Inr)
  show ?thesis by (simp add: ingest_files_def m ingest_loop_append l)
qed

text \<open>
  Claim C4, as the code has it. After any uploads \<open>before\<close> that were processed: if
  both writes of an upload succeed and its normalisation raises, the batch goes on with
  the remaining uploads and the same records (so the upload yields none), the error
  is printed, and the scratch file and the side-file saved for it are removed. The
  two writes are outside the \<open>try\<close>: if the side-file write or the scratch-file write
  raises, the exception leaves \<open>ingest_files\<close> and the batch is aborted.
\<close>

theorem normalization_failure_isolated:
  assumes "ingest_files env before st0 = Inr (memories, st)"
  shows "(save_media env file_name file_data source_type st = Inr (unique_filename, st1)
            \<and> write_file env (''temp_'' @ file_name) file_data st1 = Inr st2
            \<and> normalize env (files st2) source_type (''temp_'' @ file_name) = Raised e
          \<longrightarrow> ingest_files env (before @ (file_name, file_data, source_type, description) # rest) st0
                = ingest_loop env rest memories
                    (st2\<lparr>printed := printed st2 @ [''Error processing '' @ file_name @ '': '' @ exn_str e],
                        files := (case unique_filename of
                                    Some u \<Rightarrow> (files st2)(''uploads/'' @ u := None, ''temp_'' @ file_name := None)
                                  | None \<Rightarrow> (files st2)(''temp_'' @ file_name := None))\<rparr>)
              \<and> (case unique_filename of
                    Some u \<Rightarrow> ((files st2)(''uploads/'' @ u := None, ''temp_'' @ file_name := None))
                                (''uploads/'' @ u) = None
                  | None \<Rightarrow> source_type \<notin> set [''image'', ''audio'']))
       \<and> (save_media env file_name file_data source_type st = Inl e
            \<or> (save_media env file_name file_data source_type st = Inr (unique_filename, st1)
                \<and> write_file env (''temp_'' @ file_name) file_data st1 = Inl e)
          \<longrightarrow> ingest_files env (before @ (file_name, file_data, source_type, description) # rest) st0
                = Inl e)"
proof (intro conjI impI)
  assume h: "save_media env file_name file_data source_type st = Inr (unique_filename, st1)
            \<and> write_file env (''temp_'' @ file_name) file_data st1 = Inr st2
            \<and> normalize env (files st2) source_type (''temp_'' @ file_name) = Raised e"
  then have one: "ingest_one env (file_name, file_data, source_type, description) st =
      Inr (None, st2\<lparr>printed := printed st2 @ [''Error processing '' @ file_name @ '': '' @ exn_str e],
                        files := (case unique_filename of
                                    Some u \<Rightarrow> (files st2)(''uploads/'' @ u := None, ''temp_'' @ file_name := None)
                                  | None \<Rightarrow> (files st2)(''temp_'' @ file_name := None))\<rparr>)"
    using ingest_one_steps [of env file_name file_data source_type st unique_filename st1 st2 description]
    by simp
  show "ingest_files env (before @ (file_name, file_data, source_type, description) # rest) st0
                = ingest_loop env rest memories
                    (st2\<lparr>printed := printed st2 @ [''Error processing '' @ file_name @ '': '' @ exn_str e],
                        files := (case unique_filename of
                                    Some u \<Rightarrow> (files st2)(''uploads/'' @ u := None, ''temp_'' @ file_name := None)
                                  | None \<Rightarrow> (files st2)(''temp_'' @ file_name := None))\<rparr>)"
    by (simp add: ingest_files_append_one [OF assms] one)
  from h have "unique_filename = None \<Longrightarrow> source_type \<notin> set [''image'', ''audio'']"
    by (auto simp: save_media_def Let_def split: if_splits sum.splits)
  then show "case unique_filename of
                    Some u \<Rightarrow> ((files st2)(''uploads/'' @ u := None, ''temp_'' @ file_name := None))
                                (''uploads/'' @ u) = None
                  | None \<Rightarrow> source_type \<notin> set [''image'', ''audio'']"
    by (cases unique_filename) simp_all
next
  assume "save_media env file_name file_data source_type st = Inl e
            \<or> (save_media env file_name file_data source_type st = Inr (unique_filename, st1)
                \<and> write_file env (''temp_'' @ file_name) file_data st1 = Inl e)"
  then have "ingest_one env (file_name, file_data, source_type, description) st = Inl e"
    unfolding ingest_one_Inl by blast
  then show "ingest_files env (before @ (file_name, file_data, source_type, description) # rest) st0 = Inl e"
    by (simp add: ingest_files_append_one [OF assms])
qed

text \<open>
  Claim C10, as the code has it. After any uploads \<open>before\<close> that were processed, take
  an upload whose source type is none of \<open>text\<close>, \<open>word\<close>, \<open>audio\<close>, \<open>image\<close>. If its
  scratch file can be written, it changes nothing but the scratch path, which is left
  without a file: the records are the same (no record for it), no other file is
  written (no side-file, no uuid drawn), nothing is printed, and the remaining
  uploads are processed. The scratch file is written before the \<open>try\<close> for every
  source type: if that write raises, the exception leaves \<open>ingest_files\<close> and the
  remaining uploads are not processed.
\<close>

theorem unsupported_type_skipped:
  assumes "source_type \<notin> set [''text'', ''word'', ''audio'', ''image'']"
      and "ingest_files env before st0 = Inr (memories, st)"
  shows "(write_raises env (''temp_'' @ file_name) = None
          \<longrightarrow> ingest_files env (before @ (file_name, file_data, source_type, description) # rest) st0
                = ingest_loop env rest memories
                    (st\<lparr>files := (files st)(''temp_'' @ file_name := None)\<rparr>))
       \<and> (write_raises env (''temp_'' @ file_name) = Some e
          \<longrightarrow> ingest_files env (before @ (file_name, file_data, source_type, description) # rest) st0
                = Inl e)"
proof (intro conjI impI)
  from assms(1) have "source_type \<notin> set [''image'', ''audio'']" by simp
  then have s: "save_media env file_name file_data source_type st = Inr (None, st)"
    by (simp add: save_media_def)
  {
    assume "write_raises env (''temp_'' @ file_name) = None"
    then have w: "write_file env (''temp_'' @ file_name) file_data st
         = Inr (st\<lparr>files := (files st)(''temp_'' @ file_name \<mapsto> file_data)\<rparr>)"
      by (simp add: write_file_def)
    have "ingest_one env (file_name, file_data, source_type, description) st
            = Inr (None, st\<lparr>files := (files st)(''temp_'' @ file_name := None)\<rparr>)"
      by (simp add: ingest_one_steps [OF s w] normalize_unsupported [OF assms(1)])
    then show "ingest_files env (before @ (file_name, file_data, source_type, description) # rest) st0
                = ingest_loop env rest memories
                    (st\<lparr>files := (files st)(''temp_'' @ file_name := None)\<rparr>)"
      by (simp add: ingest_files_append_one [OF assms(2)])
  }
  {
    assume "write_raises env (''temp_'' @ file_name) = Some e"
    then have "write_file env (''temp_'' @ file_name) file_data st = Inl e"
      by (simp add: write_file_def)
    with s have "ingest_one env (file_name, file_data, source_type, description) st = Inl e"
      unfolding ingest_one_Inl by blast
    then show "ingest_files env (before @ (file_name, file_data, source_type, description) # rest) st0
                = Inl e"
      by (simp add: ingest_files_append_one [OF assms(2)])
  }
qed

text \<open>
  Claim C5. \<open>process_audio_file\<close> always returns a non-empty string; when the
  speech-to-text call raises \<open>e\<close>, the string is the placeholder around \<open>str(e)\<close>,
  and, the two file writes succeeding, ingesting that one audio upload returns
  exactly one record, with the placeholder as its content behind the description
  prefix. \<open>process_image_file\<close> raises whatever image loading or captioning raises.
\<close>

theorem audio_degrades_image_raises:
  "(\<exists>s. process_audio_file env fs p = Inr s \<and> s \<noteq> [])
   \<and> (fs p = Some file_data \<and> transcriber env file_data = Inl e
        \<longrightarrow> process_audio_file env fs p
              = Inr (''Audio transcription failed: '' @ exn_str e
                     @ ''. This is a placeholder for audio content.''))
   \<and> (write_raises env (''uploads/'' @ uuid4 env (uuid_calls st) @ ''_'' @ file_name) = None
        \<and> write_raises env (''temp_'' @ file_name) = None
        \<and> transcriber env file_data = Inl e
        \<longrightarrow> (\<exists>memory st'.
               ingest_files env [(file_name, file_data, ''audio'', description)] st = Inr ([memory], st')
               \<and> memory ''content''
                   = Some (PStr ((if description \<noteq> []
                                  then ''Description: '' @ description @ newline @ newline else [])
                                 @ ''Audio transcription failed: '' @ exn_str e
                                 @ ''. This is a placeholder for audio content.''))))
   \<and> (fs p = Some file_data
        \<and> (image_open env file_data = Inl e
            \<or> (\<exists>img. image_open env file_data = Inr img \<and> captioner env img = Inl e))
        \<longrightarrow> process_image_file env fs p = Inl e)"
proof (intro conjI impI)
  show "\<exists>s. process_audio_file env fs p = Inr s \<and> s \<noteq> []"
    by (rule process_audio_file_Inr)
next
  assume "fs p = Some file_data \<and> transcriber env file_data = Inl e"
  then show "process_audio_file env fs p
              = Inr (''Audio transcription failed: '' @ exn_str e
                     @ ''. This is a placeholder for audio content.'')"
    by (simp add: process_audio_file_def)
next
  assume "fs p = Some file_data
        \<and> (image_open env file_data = Inl e
            \<or> (\<exists>img. image_open env file_data = Inr img \<and> captioner env img = Inl e))"
  then show "process_image_file env fs p = Inl e"
    by (auto simp: process_image_file_def)
next
  let ?u = "uuid4 env (uuid_calls st) @ ''_'' @ file_name"
  let ?st1 = "st\<lparr>uuid_calls := Suc (uuid_calls st), files := (files st)(''uploads/'' @ ?u \<mapsto> file_data)\<rparr>"
  let ?st2 = "?st1\<lparr>files := (files ?st1)(''temp_'' @ file_name \<mapsto> file_data)\<rparr>"
  assume h: "write_raises env (''uploads/'' @ uuid4 env (uuid_calls st) @ ''_'' @ file_name) = None
        \<and> write_raises env (''temp_'' @ file_name) = None
        \<and> transcriber env file_data = Inl e"
  then have s: "save_media env file_name file_data ''audio'' st = Inr (Some ?u, ?st1)"
    by (simp add: save_media_def write_file_def Let_def)
  from h have w: "write_file env (''temp_'' @ file_name) file_data ?st1 = Inr ?st2"
    by (simp add: write_file_def)
  from h have n: "normalize env (files ?st2) ''audio'' (''temp_'' @ file_name)
      = Content (''Audio transcription failed: '' @ exn_str e
                     @ ''. This is a placeholder for audio content.'')"
    by (simp add: normalize_def process_audio_file_def)
  show "\<exists>memory st'.
               ingest_files env [(file_name, file_data, ''audio'', description)] st = Inr ([memory], st')
               \<and> memory ''content''
                   = Some (PStr ((if description \<noteq> []
                                  then ''Description: '' @ description @ newline @ newline else [])
                                 @ ''Audio transcription failed: '' @ exn_str e
                                 @ ''. This is a placeholder for audio content.''))"
  proof -
    let ?doc = "''Audio transcription failed: '' @ exn_str e
                  @ ''. This is a placeholder for audio content.''"
    let ?memory = "[''content'' \<mapsto> PStr (if description \<noteq> []
                                           then ''Description: '' @ description @ newline @ newline @ ?doc
                                           else ?doc),
                     ''filename'' \<mapsto> PStr file_name,
                     ''source_type'' \<mapsto> PStr ''audio'',
                     ''upload_time'' \<mapsto> PStr (now_isoformat env (clock_calls ?st2)),
                     ''year'' \<mapsto> PNone,
                     ''file_path'' \<mapsto> PStr ?u]"
    have one: "ingest_one env (file_name, file_data, ''audio'', description) st =
        Inr (Some ?memory,
             ?st2\<lparr>clock_calls := Suc (clock_calls ?st2),
                  files := (files ?st2)(''temp_'' @ file_name := None)\<rparr>)"
      unfolding ingest_one_steps [OF s w] n by simp
    have "?memory ''content''
                   = Some (PStr ((if description \<noteq> []
                                  then ''Description: '' @ description @ newline @ newline else [])
                                 @ ?doc))"
      by simp
    moreover from h have "mkdir_raises env = None"
      using write_raises_uploads_None [of env "uuid4 env (uuid_calls st) @ ''_'' @ file_name"] by simp
    ultimately show ?thesis
      using one unfolding ingest_files_def by (simp del: fun_upd_apply)
  qed
qed

text \<open>Runs of the program on concrete batches.\<close>

lemma ingest_files_Nil: "mkdir_raises env = None \<Longrightarrow> ingest_files env [] st = Inr ([], st)"
  by (simp add: ingest_files_def)

lemma mkdir_full_disk_env: "mkdir_raises full_disk_env = None"
  by (simp add: full_disk_env_def demo_env_def)

lemma run_note_a:
  "ingest_files demo_env [note_a] init_state
     = Inr (memories_of (ingest_files demo_env [note_a] init_state), after_note_a)"
  by (simp add: demo_ingest_defs note_a_def after_note_a_def)

theorem normalization_failure_isolated_witness:
  "length (memories_of (ingest_files demo_env [note_a, (''bad.png'', [], ''image'', []), note_c] init_state)) = 2
   \<and> map_option files (state_of (ingest_files demo_env
         [note_a, (''bad.png'', [], ''image'', []), note_c] init_state)) = Some Map.empty
   \<and> ingest_files full_disk_env [(''memo.wav'', ''RIFF'', ''audio'', []), note_c] init_state
       = Inl (OSError ''No space left on device'')"
proof -
  let ?st1 = "after_note_a\<lparr>uuid_calls := 1, files := [''uploads/uuid0_bad.png'' \<mapsto> []]\<rparr>"
  let ?st2 = "?st1\<lparr>files := [''uploads/uuid0_bad.png'' \<mapsto> [], ''temp_bad.png'' \<mapsto> []]\<rparr>"
  have s: "save_media demo_env ''bad.png'' [] ''image'' after_note_a = Inr (Some ''uuid0_bad.png'', ?st1)"
    by (simp add: demo_ingest_defs after_note_a_def)
  have w: "write_file demo_env (''temp_'' @ ''bad.png'') [] ?st1 = Inr ?st2"
    by (simp add: demo_ingest_defs after_note_a_def)
  have n: "normalize demo_env (files ?st2) ''image'' (''temp_'' @ ''bad.png'')
             = Raised (ModelError ''cannot identify image file'')"
    by (simp add: demo_ingest_defs after_note_a_def)
  have f: "save_media full_disk_env ''memo.wav'' ''RIFF'' ''audio'' init_state
             = Inl (OSError ''No space left on device'')"
    by (simp add: demo_ingest_defs)
  have a: "ingest_files demo_env ([note_a] @ (''bad.png'', [], ''image'', []) # [note_c]) init_state
        = ingest_loop demo_env [note_c] (memories_of (ingest_files demo_env [note_a] init_state))
            (?st2\<lparr>printed := printed ?st2 @ [''Error processing '' @ ''bad.png'' @ '': ''
                                 @ exn_str (ModelError ''cannot identify image file'')],
                  files := (case Some ''uuid0_bad.png'' of
                              Some u \<Rightarrow> (files ?st2)(''uploads/'' @ u := None, ''temp_'' @ ''bad.png'' := None)
                            | None \<Rightarrow> (files ?st2)(''temp_'' @ ''bad.png'' := None))\<rparr>)"
    by (rule normalization_failure_isolated [OF run_note_a, THEN conjunct1, THEN mp,
               OF conjI [OF s conjI [OF w n]], THEN conjunct1])
  have b: "ingest_files full_disk_env ([] @ (''memo.wav'', ''RIFF'', ''audio'', []) # [note_c]) init_state
        = Inl (OSError ''No space left on device'')"
    by (rule normalization_failure_isolated [OF ingest_files_Nil [OF mkdir_full_disk_env], THEN conjunct2, THEN mp,
               OF disjI1, OF f])
  from a have a': "ingest_files demo_env [note_a, (''bad.png'', [], ''image'', []), note_c] init_state
        = ingest_loop demo_env [note_c] (memories_of (ingest_files demo_env [note_a] init_state))
            (?st2\<lparr>printed := printed ?st2 @ [''Error processing '' @ ''bad.png'' @ '': ''
                                 @ exn_str (ModelError ''cannot identify image file'')],
                  files := (case Some ''uuid0_bad.png'' of
                              Some u \<Rightarrow> (files ?st2)(''uploads/'' @ u := None, ''temp_'' @ ''bad.png'' := None)
                            | None \<Rightarrow> (files ?st2)(''temp_'' @ ''bad.png'' := None))\<rparr>)"
    by simp
  from b have b': "ingest_files full_disk_env [(''memo.wav'', ''RIFF'', ''audio'', []), note_c] init_state
        = Inl (OSError ''No space left on device'')"
    by simp
  show ?thesis
    unfolding a' b'
    by (simp add: demo_ingest_defs note_a_def note_c_def after_note_a_def)
qed

lemma mkdir_no_subdir_env: "mkdir_raises no_subdir_env = None"
  by (simp add: no_subdir_env_def demo_env_def)

lemma run_note_a_no_subdir:
  "ingest_files no_subdir_env [note_a] init_state
     = Inr (memories_of (ingest_files no_subdir_env [note_a] init_state), after_note_a)"
  by (simp add: demo_ingest_defs note_a_def after_note_a_def)

theorem unsupported_type_skipped_witness:
  "length (memories_of (ingest_files demo_env [note_a, (''clip.mp4'', ''MP4'', ''video'', []), note_c] init_state)) = 2
   \<and> state_of (ingest_files demo_env [note_a, (''clip.mp4'', ''MP4'', ''video'', []), note_c] init_state)
       = Some \<lparr>files = Map.empty, uuid_calls = 0, clock_calls = 2, printed = []\<rparr>
   \<and> ingest_files no_subdir_env [(''clips/clip.mp4'', ''MP4'', ''video'', []), note_c] init_state
       = Inl (FileNotFoundError ''temp_clips/clip.mp4'')"
proof -
  have t: "''video'' \<notin> set [''text'', ''word'', ''audio'', ''image'']" by simp
  have w: "write_raises demo_env (''temp_'' @ ''clip.mp4'') = None"
    by (simp add: write_raises_def demo_env_def)
  have a: "ingest_files demo_env ([note_a] @ (''clip.mp4'', ''MP4'', ''video'', []) # [note_c]) init_state
         = ingest_loop demo_env [note_c] (memories_of (ingest_files demo_env [note_a] init_state))
             (after_note_a\<lparr>files := (files after_note_a)(''temp_'' @ ''clip.mp4'' := None)\<rparr>)"
    by (rule unsupported_type_skipped [OF t run_note_a, THEN conjunct1, THEN mp, OF w])
  have r: "write_raises no_subdir_env (''temp_'' @ ''clips/clip.mp4'')
             = Some (FileNotFoundError ''temp_clips/clip.mp4'')"
    by (simp add: write_raises_def no_subdir_env_def demo_env_def)
  have b: "ingest_files no_subdir_env ([] @ (''clips/clip.mp4'', ''MP4'', ''video'', []) # [note_c]) init_state
         = Inl (FileNotFoundError ''temp_clips/clip.mp4'')"
    by (rule unsupported_type_skipped [OF t ingest_files_Nil [OF mkdir_no_subdir_env],
               THEN conjunct2, THEN mp, OF r])
  from a have a': "ingest_files demo_env [note_a, (''clip.mp4'', ''MP4'', ''video'', []), note_c] init_state
         = ingest_loop demo_env [note_c] (memories_of (ingest_files demo_env [note_a] init_state))
             (after_note_a\<lparr>files := (files after_note_a)(''temp_'' @ ''clip.mp4'' := None)\<rparr>)"
    by simp
  from b have b': "ingest_files no_subdir_env [(''clips/clip.mp4'', ''MP4'', ''video'', []), note_c] init_state
         = Inl (FileNotFoundError ''temp_clips/clip.mp4'')"
    by simp
  show ?thesis
    unfolding a' b'
    by (simp add: demo_ingest_defs note_a_def note_c_def after_note_a_def)
qed

text \<open>
  An unsupported upload named \<open>clips/clip.mp4\<close>, in a working directory without the
  subdirectory \<open>temp_clips\<close>: the scratch-file write raises, \<open>ingest_files\<close> raises, and
  the upload after it is not processed.
\<close>

theorem unsupported_upload_aborts_counterexample:
  "ingest_files no_subdir_env [note_a, (''clips/clip.mp4'', ''MP4'', ''video'', []), note_c] init_state
     = Inl (FileNotFoundError ''temp_clips/clip.mp4'')"
proof -
  have "ingest_one no_subdir_env (''clips/clip.mp4'', ''MP4'', ''video'', []) after_note_a
          = Inl (FileNotFoundError ''temp_clips/clip.mp4'')"
    by (simp add: ingest_one_def save_media_def write_file_def write_raises_def
                  no_subdir_env_def demo_env_def)
  with ingest_files_append_one [OF run_note_a_no_subdir,
         of "(''clips/clip.mp4'', ''MP4'', ''video'', [])" "[note_c]"]
  show ?thesis by simp
qed

theorem audio_degrades_image_raises_witness:
  "process_audio_file demo_env memo_fs ''temp_memo.wav''
     = Inr ''Audio transcription failed: model not available. This is a placeholder for audio content.''
   \<and> length (memories_of (ingest_files demo_env [(''memo.wav'', ''RIFF'', ''audio'', [])] init_state)) = 1
   \<and> process_image_file demo_env bad_png_fs ''temp_bad.png'' = Inl (ModelError ''cannot identify image file'')"
proof -
  note au = audio_degrades_image_raises [where env = demo_env and fs = memo_fs
              and p = "''temp_memo.wav''" and file_data = "''RIFF''"
              and e = "ModelError ''model not available''" and st = init_state
              and file_name = "''memo.wav''" and description = "[]"]
  note im = audio_degrades_image_raises [where env = demo_env and fs = bad_png_fs
              and p = "''temp_bad.png''" and file_data = "[]"
              and e = "ModelError ''cannot identify image file''" and st = init_state
              and file_name = "''bad.png''" and description = "[]"]
  have h1: "memo_fs ''temp_memo.wav'' = Some ''RIFF'' \<and> transcriber demo_env ''RIFF'' = Inl (ModelError ''model not available'')"
    by (simp add: memo_fs_def demo_env_def)
  have h2: "write_raises demo_env (''uploads/'' @ uuid4 demo_env (uuid_calls init_state) @ ''_'' @ ''memo.wav'') = None
        \<and> write_raises demo_env (''temp_'' @ ''memo.wav'') = None
        \<and> transcriber demo_env ''RIFF'' = Inl (ModelError ''model not available'')"
    by (simp add: write_raises_def demo_env_def)
  have h3: "bad_png_fs ''temp_bad.png'' = Some []
        \<and> (image_open demo_env [] = Inl (ModelError ''cannot identify image file'')
            \<or> (\<exists>img. image_open demo_env [] = Inr img \<and> captioner demo_env img = Inl (ModelError ''cannot identify image file'')))"
    by (simp add: bad_png_fs_def demo_env_def)
  have a: "process_audio_file demo_env memo_fs ''temp_memo.wav''
     = Inr (''Audio transcription failed: '' @ exn_str (ModelError ''model not available'')
            @ ''. This is a placeholder for audio content.'')"
    by (rule au [THEN conjunct2, THEN conjunct1, THEN mp, OF h1])
  from au [THEN conjunct2, THEN conjunct2, THEN conjunct1, THEN mp, OF h2]
  obtain memory st' where
    run: "ingest_files demo_env [(''memo.wav'', ''RIFF'', ''audio'', [])] init_state = Inr ([memory], st')"
    by (elim exE conjE)
  have b: "length (memories_of (ingest_files demo_env [(''memo.wav'', ''RIFF'', ''audio'', [])] init_state)) = 1"
    unfolding run by (simp add: memories_of_def)
  have c: "process_image_file demo_env bad_png_fs ''temp_bad.png''
      = Inl (ModelError ''cannot identify image file'')"
    by (rule im [THEN conjunct2, THEN conjunct2, THEN conjunct2, THEN mp, OF h3])
  from a b c show ?thesis by simp
qed

end
